theory Spec2Isabelle
  imports Complex_Main
begin

section \<open>Phone normalisation (app/utils.py)\<close>

text \<open>
  Python strings are sequences of code points. The model works on \<open>string\<close>, that is on
  code points below 256. In that range \<^verbatim>\<open>str.strip()\<close> removes the characters for
  which \<^verbatim>\<open>str.isspace()\<close> holds (tab to carriage return, the four separators
  0x1C to 0x1F, the space, NEL 0x85 and the no-break space 0xA0), and the regular
  expression class \<^verbatim>\<open>\d\<close> holds for the ten ASCII digits only.
\<close>

definition py_isspace :: "char \<Rightarrow> bool" where
  "py_isspace c =
     (let n = (of_char c :: nat)
      in (9 \<le> n \<and> n \<le> 13) \<or> (28 \<le> n \<and> n \<le> 31) \<or> n = 32 \<or> n = 133 \<or> n = 160)"

definition py_isdigit :: "char \<Rightarrow> bool" where
  "py_isdigit c = (let n = (of_char c :: nat) in 48 \<le> n \<and> n \<le> 57)"

definition py_strip :: "string \<Rightarrow> string" where
  "py_strip s = rev (dropWhile py_isspace (rev (dropWhile py_isspace s)))"

text \<open>
  \<^verbatim>\<open>PHONE_REGEX_RAW = r"^(?:\+254|0)?(7\d{8}|1\d{8})$"\<close>.
  \<open>subscriber\<close> is the capturing group; \<open>match_tail\<close> is the group followed by
  \<^verbatim>\<open>$\<close>, which in Python matches at the end of the string and also just before a
  newline that ends the string; \<open>PHONE_REGEX_match\<close> tries the alternatives of the
  optional prefix in the order the regular expression engine does and returns group 1.
\<close>

definition subscriber :: "string \<Rightarrow> bool" where
  "subscriber g =
     (length g = 9 \<and> (take 1 g = ''7'' \<or> take 1 g = ''1'') \<and> list_all py_isdigit (drop 1 g))"

definition match_tail :: "string \<Rightarrow> string option" where
  "match_tail r =
     (if subscriber r then Some r
      else if length r = 10 \<and> drop 9 r = [CHR 0x0A] \<and> subscriber (take 9 r) then Some (take 9 r)
      else None)"

definition PHONE_REGEX_match :: "string \<Rightarrow> string option" where
  "PHONE_REGEX_match t =
     (case (if take 4 t = ''+254'' then match_tail (drop 4 t) else None) of
        Some g \<Rightarrow> Some g
      | None \<Rightarrow>
          (case (if take 1 t = ''0'' then match_tail (drop 1 t) else None) of
             Some g \<Rightarrow> Some g
           | None \<Rightarrow> match_tail t))"

definition normalize_phone_number :: "string \<Rightarrow> string option" where
  "normalize_phone_number phone_number =
     (if phone_number = [] then None
      else (case PHONE_REGEX_match (py_strip phone_number) of
              Some g \<Rightarrow> Some (''+254'' @ g)
            | None \<Rightarrow> None))"


section \<open>Values exchanged with the gateway and the database\<close>

text \<open>
  Python values obtained from JSON (\<^verbatim>\<open>request.json\<close>, \<^verbatim>\<open>response.json()\<close>).
  \<open>JNull\<close> is Python's \<^verbatim>\<open>None\<close>; numbers are the integers (a non-integer number
  is not modelled). An object keeps its members in order; as \<^verbatim>\<open>json.loads\<close> does,
  \<open>dict_lookup\<close> lets the last of several members with one key win.
\<close>

datatype json =
    JNull
  | JBool bool
  | JNum int
  | JStr string
  | JArr "json list"
  | JObj "(string \<times> json) list"

definition dict_lookup :: "(string \<times> json) list \<Rightarrow> string \<Rightarrow> json option" where
  "dict_lookup kvs k = map_of (rev kvs) k"

text \<open>\<^verbatim>\<open>d.get(k)\<close> on a dictionary: the value, or \<^verbatim>\<open>None\<close> when the key is absent.\<close>

definition dict_get :: "(string \<times> json) list \<Rightarrow> string \<Rightarrow> json" where
  "dict_get kvs k = (case dict_lookup kvs k of Some v \<Rightarrow> v | None \<Rightarrow> JNull)"

text \<open>
  \<^verbatim>\<open>v.get(k, default)\<close> on any value: only a dictionary has \<^verbatim>\<open>get\<close>; on every
  other value the call raises AttributeError, which is the result \<open>None\<close> here.
\<close>

definition py_get :: "json \<Rightarrow> string \<Rightarrow> json \<Rightarrow> json option" where
  "py_get v k d =
     (case v of
        JObj kvs \<Rightarrow> Some (case dict_lookup kvs k of Some x \<Rightarrow> x | None \<Rightarrow> d)
      | _ \<Rightarrow> None)"

fun digits :: "nat \<Rightarrow> string" where
  "digits n =
     (if n < 10 then [''0123456789'' ! n]
      else digits (n div 10) @ [''0123456789'' ! (n mod 10)])"

declare digits.simps [simp del]

definition int_text :: "int \<Rightarrow> string" where
  "int_text i = (if i < 0 then ''-'' @ digits (nat (- i)) else digits (nat i))"


text \<open>
  A Python value bound to a \<^verbatim>\<open>String\<close> column, in a comparison or in an update. The
  configured database is SQLite (config.py): \<^verbatim>\<open>None\<close> is NULL, a string is itself, an
  integer or a boolean takes the column's text affinity, and the driver refuses with an
  exception (the result \<open>None\<close>) a list, a dictionary, and an integer outside the 64
  bits of an SQLite INTEGER (OverflowError).
\<close>

fun sql_text :: "json \<Rightarrow> string option option" where
  "sql_text JNull = Some None"
| "sql_text (JStr s) = Some (Some s)"
| "sql_text (JNum n) =
     (if - (2 ^ 63) \<le> n \<and> n < 2 ^ 63 then Some (Some (int_text n)) else None)"
| "sql_text (JBool b) = Some (Some (if b then ''1'' else ''0''))"
| "sql_text (JArr xs) = None"
| "sql_text (JObj kvs) = None"

section \<open>Data model (app/models.py)\<close>

datatype UserRole = CLIENT | FREELANCER | ADMIN

datatype BookingStatus =
    B_PENDING
  | B_CONFIRMED
  | B_CANCELLED_CLIENT
  | B_CANCELLED_FREELANCER
  | B_COMPLETED
  | B_PAYMENT_PENDING
  | B_PAYMENT_FAILED
  | B_DISPUTED

datatype PaymentStatus = P_PENDING | P_SUCCESSFUL | P_FAILED | P_REFUNDED

text \<open>
  The enum columns \<^verbatim>\<open>users.role\<close>, \<^verbatim>\<open>bookings.status\<close> and \<^verbatim>\<open>payments.status\<close> are
  declared \<^verbatim>\<open>ChoiceType(X, impl=DBEnum(X, name=...))\<close> (models.py, lines 45, 116 and
  143). For a write, \<^verbatim>\<open>ChoiceType\<close> binds the member's value (\<^verbatim>\<open>'pending'\<close>), and the
  \<^verbatim>\<open>Enum\<close> type underneath stores a text it does not know as it is. For a read, the
  \<^verbatim>\<open>Enum\<close> type looks the stored text up among the member names (\<^verbatim>\<open>'PENDING'\<close>) and
  raises LookupError for every other text. So a column holds a member spelled by its
  name, which no statement of the application stores, or spelled by its value, which
  is what every insert and every update of the application stores. \<open>loaded\<close> is the
  read, with \<open>None\<close> for the LookupError; \<open>spelled\<close> is the member that the text
  spells.
\<close>

datatype 'a stored = ByName 'a | ByValue 'a

fun loaded :: "'a stored \<Rightarrow> 'a option" where
  "loaded (ByName x) = Some x"
| "loaded (ByValue x) = None"

fun spelled :: "'a stored \<Rightarrow> 'a" where
  "spelled (ByName x) = x"
| "spelled (ByValue x) = x"

text \<open>
  An assignment \<^verbatim>\<open>obj.status = X\<close> to a loaded object, followed by a commit. The unit
  of work writes a column only when the value assigned differs from the value loaded,
  so a status that is assigned the member it already has keeps its spelling.
\<close>

definition assigned :: "'a stored \<Rightarrow> 'a \<Rightarrow> 'a stored" where
  "assigned old new = (if spelled old = new then old else ByValue new)"

text \<open>A row of \<^verbatim>\<open>users\<close>, as far as the routes read it: the logged-in user.\<close>

record User =
  u_id :: nat
  role :: "UserRole stored"

record Service =
  estimated_price :: "rat option"

text \<open>
  A row of \<^verbatim>\<open>bookings\<close>. The relationship attributes the payment code reads through
  the foreign keys (\<^verbatim>\<open>booking.service\<close>, \<^verbatim>\<open>booking.client.phone_number\<close>) are kept
  in the row. Columns that no modelled operation reads or writes (times, notes of the
  client, address) are left out. A \<^verbatim>\<open>Float\<close> column holds a rational, which every
  finite float is.
\<close>

record Booking =
  b_id :: nat
  client_id :: nat
  freelancer_id :: nat
  service :: "Service option"
  client_phone_number :: string
  b_status :: "BookingStatus stored"
  freelancer_notes :: "string option"

text \<open>
  The payload of the push request (\<^verbatim>\<open>payload\<close> in \<^verbatim>\<open>initiate_stk_push\<close>), without the
  members that depend on the clock or only on the configuration (Password, Timestamp,
  TransactionType, CallBackURL, TransactionDesc).
\<close>

record stk_request =
  BusinessShortCode :: string
  Amount :: int
  PartyA :: string
  PartyB :: string
  PhoneNumber :: string
  AccountReference :: string

text \<open>
  A row of \<^verbatim>\<open>payments\<close>. The two payload columns hold the value that
  \<^verbatim>\<open>json.dumps\<close> serialises.
\<close>

record Payment =
  p_id :: nat
  booking_id :: nat
  amount :: rat
  currency :: string
  mpesa_transaction_id :: "string option"
  merchant_request_id :: "string option"
  checkout_request_id :: "string option"
  p_status :: "PaymentStatus stored"
  payment_initiation_payload :: "stk_request option"
  payment_confirmation_payload :: "json option"

text \<open>The committed content of the two tables, rows in insertion order.\<close>

record Database =
  bookings :: "Booking list"
  payments :: "Payment list"

text \<open>
  A query that returns an object (\<^verbatim>\<open>first()\<close>, \<^verbatim>\<open>first_or_404()\<close>, \<^verbatim>\<open>get_or_404\<close>)
  fetches the first row that satisfies its filter and converts the columns of that row:
  \<open>None\<close> is the LookupError of the enum column \<open>col\<close>, \<open>Some None\<close> is no row, and
  \<open>Some (Some r)\<close> is the object for the row \<open>r\<close>.
\<close>

definition query_first :: "('r \<Rightarrow> 'e stored) \<Rightarrow> ('r \<Rightarrow> bool) \<Rightarrow> 'r list \<Rightarrow> 'r option option" where
  "query_first col P rows =
     (case find P rows of
        None \<Rightarrow> Some None
      | Some r \<Rightarrow> (case loaded (col r) of None \<Rightarrow> None | Some s \<Rightarrow> Some (Some r)))"

text \<open>
  The session expires its objects at every commit and at every rollback
  (\<^verbatim>\<open>expire_on_commit\<close>, the default): the next read of an attribute of such an
  object, the primary key included, fetches the object's row again and converts it as
  a query does. \<open>None\<close> is the exception of that read.
\<close>

definition refresh_booking :: "Database \<Rightarrow> Booking \<Rightarrow> Booking option" where
  "refresh_booking db booking =
     (case query_first b_status (\<lambda>x. b_id x = b_id booking) (bookings db) of
        Some (Some row) \<Rightarrow> Some row
      | _ \<Rightarrow> None)"

definition refresh_payment :: "Database \<Rightarrow> Payment \<Rightarrow> Payment option" where
  "refresh_payment db payment_record =
     (case query_first p_status (\<lambda>x. p_id x = p_id payment_record) (payments db) of
        Some (Some row) \<Rightarrow> Some row
      | _ \<Rightarrow> None)"

text \<open>An update of the row with the object's primary key.\<close>

definition save_booking :: "Booking \<Rightarrow> Booking list \<Rightarrow> Booking list" where
  "save_booking b bs = map (\<lambda>x. if b_id x = b_id b then b else x) bs"

definition save_payment :: "Payment \<Rightarrow> Payment list \<Rightarrow> Payment list" where
  "save_payment p ps = map (\<lambda>x. if p_id x = p_id p then p else x) ps"

text \<open>
  The insert of a new payment: the primary key is the next free one, and the commit
  fails with an IntegrityError (the result \<open>None\<close>) when a row with the same
  \<^verbatim>\<open>booking_id\<close> exists, since the column is declared \<^verbatim>\<open>unique=True\<close>.
\<close>

definition next_payment_id :: "Payment list \<Rightarrow> nat" where
  "next_payment_id ps = Suc (fold max (map p_id ps) 0)"

definition add_payment :: "Payment \<Rightarrow> Payment list \<Rightarrow> Payment list option" where
  "add_payment p ps =
     (if list_ex (\<lambda>x. booking_id x = booking_id p) ps then None else Some (ps @ [p]))"

text \<open>
  \<^verbatim>\<open>mpesa_transaction_id\<close> is declared \<^verbatim>\<open>unique=True\<close> as well: an update that
  changes it to a value another row holds fails.
\<close>

definition receipt_taken :: "nat \<Rightarrow> string option \<Rightarrow> Payment list \<Rightarrow> bool" where
  "receipt_taken pid t ps =
     (t \<noteq> None \<and> list_ex (\<lambda>x. p_id x \<noteq> pid \<and> mpesa_transaction_id x = t) ps)"


section \<open>Booking routes (app/routes\_main.py)\<close>

text \<open>
  What a route answers. \<open>LoginRequired\<close> is the redirect of \<^verbatim>\<open>@login_required\<close>,
  \<open>Forbidden\<close> is \<^verbatim>\<open>abort(403)\<close>, \<open>NotFound\<close> is the 404 of \<^verbatim>\<open>get_or_404\<close> and
  \<^verbatim>\<open>first_or_404\<close>, \<open>ServerError\<close> is the 500 of an exception that no handler
  catches. The others are the redirects to the dashboard, told apart by the flashed
  message: \<open>InvalidTransition\<close> for "This booking cannot be ...", \<open>Transitioned\<close> for
  the success message of a booking route, \<open>ErrorFlashed\<close> for the message of its
  \<^verbatim>\<open>except\<close> branch ("Error confirming booking: ..."), \<open>NotConfirmed\<close> for "Payment can
  only be made for confirmed bookings.", \<open>AlreadyPaid\<close> for "This booking has already
  been paid for.", \<open>AlreadyInFlight\<close> for "A payment for this booking is already
  pending ...", \<open>PersistError\<close> for "Error preparing payment. Please try again.",
  \<open>StkInitiated\<close> for "STK Push initiated ..." and \<open>InitiationFailed\<close> for "Failed to
  initiate M-Pesa STK Push ...".
\<close>

datatype Outcome =
    LoginRequired
  | Forbidden
  | NotFound
  | ServerError
  | InvalidTransition
  | Transitioned
  | ErrorFlashed
  | NotConfirmed
  | AlreadyPaid
  | AlreadyInFlight
  | PersistError
  | StkInitiated
  | InitiationFailed

text \<open>
  The decorators \<^verbatim>\<open>@login_required\<close> and \<^verbatim>\<open>@roles_required(...)\<close> (app/utils.py), in
  the order the routes stack them. An anonymous request is sent to the login page. For
  a logged-in user the user loader (\<^verbatim>\<open>User.query.get\<close>, app/\_\_init\_\_.py) fetches the
  user's row, here \<open>u\<close>, and the LookupError of its role leaves the request. A user
  whose role is not among the required ones gets 403.
\<close>

definition roles_required :: "UserRole list \<Rightarrow> User option \<Rightarrow> Outcome + User" where
  "roles_required roles current_user =
     (case current_user of
        None \<Rightarrow> Inl LoginRequired
      | Some u \<Rightarrow>
          (case loaded (role u) of
             None \<Rightarrow> Inl ServerError
           | Some user_role_enum \<Rightarrow>
               if user_role_enum \<in> set roles then Inr u else Inl Forbidden))"

text \<open>
  The rest of a booking route's \<^verbatim>\<open>try\<close> block after \<^verbatim>\<open>db.session.commit()\<close>: the
  success message is formatted from \<^verbatim>\<open>booking.id\<close> first, which the commit has expired.
  An exception there is caught by the route's \<^verbatim>\<open>except Exception\<close>, which rolls the
  (already committed) session back and flashes the error message. The status that the
  route has just written differs from the one it loaded and so is held by value: the
  success message is never reached. It would go on to read the rows of the service and
  of the client.
\<close>

definition flash_after_commit :: "Database \<Rightarrow> Booking \<Rightarrow> Outcome" where
  "flash_after_commit db booking =
     (case refresh_booking db booking of
        None \<Rightarrow> ErrorFlashed
      | Some row \<Rightarrow> Transitioned)"

definition confirm_booking :: "User option \<Rightarrow> nat \<Rightarrow> Database \<Rightarrow> Outcome \<times> Database" where
  "confirm_booking current_user booking_id' db =
     (case roles_required [FREELANCER] current_user of
        Inl out \<Rightarrow> (out, db)
      | Inr u \<Rightarrow>
          (case query_first b_status (\<lambda>b. b_id b = booking_id') (bookings db) of
             None \<Rightarrow> (ServerError, db)
           | Some None \<Rightarrow> (NotFound, db)
           | Some (Some booking) \<Rightarrow>
               if freelancer_id booking \<noteq> u_id u then (Forbidden, db)
               else if spelled (b_status booking) \<noteq> B_PENDING then (InvalidTransition, db)
               else
                 (let db' = db\<lparr>bookings :=
                               save_booking
                                 (booking\<lparr>b_status := assigned (b_status booking) B_CONFIRMED,
                                          freelancer_notes := Some ''Booking confirmed by freelancer.''\<rparr>)
                                 (bookings db)\<rparr>
                  in (flash_after_commit db' booking, db'))))"

definition reject_booking :: "User option \<Rightarrow> nat \<Rightarrow> Database \<Rightarrow> Outcome \<times> Database" where
  "reject_booking current_user booking_id' db =
     (case roles_required [FREELANCER] current_user of
        Inl out \<Rightarrow> (out, db)
      | Inr u \<Rightarrow>
          (case query_first b_status (\<lambda>b. b_id b = booking_id') (bookings db) of
             None \<Rightarrow> (ServerError, db)
           | Some None \<Rightarrow> (NotFound, db)
           | Some (Some booking) \<Rightarrow>
               if freelancer_id booking \<noteq> u_id u then (Forbidden, db)
               else if spelled (b_status booking) \<noteq> B_PENDING then (InvalidTransition, db)
               else
                 (let db' = db\<lparr>bookings :=
                               save_booking
                                 (booking\<lparr>b_status := assigned (b_status booking) B_CANCELLED_FREELANCER,
                                          freelancer_notes := Some ''Booking rejected by freelancer.''\<rparr>)
                                 (bookings db)\<rparr>
                  in (flash_after_commit db' booking, db'))))"

definition cancel_booking_client :: "User option \<Rightarrow> nat \<Rightarrow> Database \<Rightarrow> Outcome \<times> Database" where
  "cancel_booking_client current_user booking_id' db =
     (case roles_required [CLIENT] current_user of
        Inl out \<Rightarrow> (out, db)
      | Inr u \<Rightarrow>
          (case query_first b_status (\<lambda>b. b_id b = booking_id') (bookings db) of
             None \<Rightarrow> (ServerError, db)
           | Some None \<Rightarrow> (NotFound, db)
           | Some (Some booking) \<Rightarrow>
               if client_id booking \<noteq> u_id u then (Forbidden, db)
               else if spelled (b_status booking) \<notin> set [B_PENDING, B_CONFIRMED]
               then (InvalidTransition, db)
               else
                 (let db' = db\<lparr>bookings :=
                               save_booking (booking\<lparr>b_status := assigned (b_status booking) B_CANCELLED_CLIENT\<rparr>)
                                 (bookings db)\<rparr>
                  in (flash_after_commit db' booking, db'))))"

definition mark_booking_completed :: "User option \<Rightarrow> nat \<Rightarrow> Database \<Rightarrow> Outcome \<times> Database" where
  "mark_booking_completed current_user booking_id' db =
     (case roles_required [FREELANCER] current_user of
        Inl out \<Rightarrow> (out, db)
      | Inr u \<Rightarrow>
          (case query_first b_status (\<lambda>b. b_id b = booking_id') (bookings db) of
             None \<Rightarrow> (ServerError, db)
           | Some None \<Rightarrow> (NotFound, db)
           | Some (Some booking) \<Rightarrow>
               if freelancer_id booking \<noteq> u_id u then (Forbidden, db)
               else if spelled (b_status booking) \<noteq> B_CONFIRMED then (InvalidTransition, db)
               else
                 (let db' = db\<lparr>bookings :=
                               save_booking (booking\<lparr>b_status := assigned (b_status booking) B_COMPLETED\<rparr>)
                                 (bookings db)\<rparr>
                  in (flash_after_commit db' booking, db'))))"

text \<open>
  The transition table of the specification (section 4.1), for the four user actions:
  the states an action is allowed from and the state it leads to.
\<close>

datatype BookingAction = FreelancerConfirms | FreelancerRejects | ClientCancels | FreelancerCompletes

fun allowed_from :: "BookingAction \<Rightarrow> BookingStatus list" where
  "allowed_from FreelancerConfirms = [B_PENDING]"
| "allowed_from FreelancerRejects = [B_PENDING]"
| "allowed_from ClientCancels = [B_PENDING, B_CONFIRMED]"
| "allowed_from FreelancerCompletes = [B_CONFIRMED]"

fun leads_to :: "BookingAction \<Rightarrow> BookingStatus" where
  "leads_to FreelancerConfirms = B_CONFIRMED"
| "leads_to FreelancerRejects = B_CANCELLED_FREELANCER"
| "leads_to ClientCancels = B_CANCELLED_CLIENT"
| "leads_to FreelancerCompletes = B_COMPLETED"

text \<open>The route that carries out an action, and who owns a booking for it.\<close>

fun booking_route :: "BookingAction \<Rightarrow> User option \<Rightarrow> nat \<Rightarrow> Database \<Rightarrow> Outcome \<times> Database" where
  "booking_route FreelancerConfirms = confirm_booking"
| "booking_route FreelancerRejects = reject_booking"
| "booking_route ClientCancels = cancel_booking_client"
| "booking_route FreelancerCompletes = mark_booking_completed"

fun required_role :: "BookingAction \<Rightarrow> UserRole" where
  "required_role ClientCancels = CLIENT"
| "required_role a = FREELANCER"

fun owns :: "BookingAction \<Rightarrow> User \<Rightarrow> Booking \<Rightarrow> bool" where
  "owns ClientCancels u b = (client_id b = u_id u)"
| "owns a u b = (freelancer_id b = u_id u)"

section \<open>Gateway client (app/services\_payment/mpesa\_service.py)\<close>

text \<open>
  \<^verbatim>\<open>current_app.config\<close>, as far as the payment code reads it. A key that is not
  configured reads as \<^verbatim>\<open>None\<close>; \<^verbatim>\<open>all([...])\<close> also refuses the empty string.
  \<open>DEFAULT_BOOKING_PRICE\<close> is taken to be a Python float or integer, and stands for
  the number that the \<^verbatim>\<open>Float\<close> column \<^verbatim>\<open>payments.amount\<close> holds for it: a float
  is held as it is, and an integer too large for a float's 53 bits is held rounded,
  which keeps its sign, so that the test \<^verbatim>\<open>amount_to_pay <= 0\<close> has the same result
  on either. The estimated price is read from a \<^verbatim>\<open>Float\<close> column.
\<close>

record Config =
  MPESA_CONSUMER_KEY :: "string option"
  MPESA_CONSUMER_SECRET :: "string option"
  MPESA_AUTH_URL :: "string option"
  MPESA_STK_PUSH_URL :: "string option"
  MPESA_SHORTCODE :: "string option"
  MPESA_PASSKEY :: "string option"
  MPESA_CALLBACK_URL_BASE :: "string option"
  DEFAULT_BOOKING_PRICE :: "rat option"

definition truthy :: "string option \<Rightarrow> bool" where
  "truthy v = (case v of None \<Rightarrow> False | Some s \<Rightarrow> s \<noteq> [])"

definition ascii :: "string \<Rightarrow> bool" where
  "ascii s = list_all (\<lambda>c. (of_char c :: nat) < 128) s"

text \<open>
  The gateway is the environment. \<open>auth\<close> is what the token request meets:
  \<open>AuthFailed\<close> for a network error, a status that \<^verbatim>\<open>raise_for_status\<close> refuses or
  a body that is no JSON object, \<open>AuthToken v\<close> for a JSON object whose
  \<^verbatim>\<open>access_token\<close> is \<open>v\<close> (\<open>None\<close> when absent). \<open>stk\<close> answers a push request:
  \<open>StkFailed\<close> for a network error, a timeout, a refused status or a body that is
  not JSON, \<open>StkResponse\<close> with the decoded body otherwise. The calls made are returned as a list.
\<close>

datatype auth_reply = AuthFailed | AuthToken "string option"

datatype stk_reply = StkFailed | StkResponse json

record Gateway =
  auth :: auth_reply
  stk :: "stk_request \<Rightarrow> stk_reply"

datatype net_call = TokenRequest | StkPushRequest stk_request

definition get_mpesa_access_token :: "Config \<Rightarrow> Gateway \<Rightarrow> string option \<times> net_call list" where
  "get_mpesa_access_token cfg gw =
     (if \<not> (truthy (MPESA_CONSUMER_KEY cfg) \<and> truthy (MPESA_CONSUMER_SECRET cfg)
             \<and> truthy (MPESA_AUTH_URL cfg))
      then (None, [])
      else if \<not> ascii (the (MPESA_CONSUMER_KEY cfg) @ '':'' @ the (MPESA_CONSUMER_SECRET cfg))
      then (None, [])
      else (case auth gw of
              AuthFailed \<Rightarrow> (None, [TokenRequest])
            | AuthToken access_token \<Rightarrow> (access_token, [TokenRequest])))"

text \<open>\<^verbatim>\<open>int(x)\<close> on a float: truncation towards zero.\<close>

definition py_int :: "rat \<Rightarrow> int" where
  "py_int x = (if 0 \<le> x then \<lfloor>x\<rfloor> else \<lceil>x\<rceil>)"

text \<open>
  \<^verbatim>\<open>initiate_stk_push(booking, payment_record)\<close>. The result is \<open>Some\<close> of the
  returned boolean, or \<open>None\<close> when an exception leaves the function, together with
  the committed database and the network calls made. Its only caller hands it the two
  objects right after a commit, which has expired them. Three statements in front of
  the \<^verbatim>\<open>try\<close> can raise: the password is encoded as ASCII,
  \<^verbatim>\<open>booking.client.phone_number\<close> fetches the booking's row again, and
  \<^verbatim>\<open>int(payment_record.amount)\<close> fetches the payment's row again. An exception inside
  the \<^verbatim>\<open>try\<close> is caught and gives \<^verbatim>\<open>False\<close> with nothing committed, with one
  exception: when the commit of the identifiers fails because the driver cannot bind
  them, the failed flush has rolled the session back and expired the booking, and the
  handler's own message, formatted from \<^verbatim>\<open>booking.id\<close>, raises PendingRollbackError.
  The commits write the columns that were assigned, into the row as it was fetched.
\<close>

definition initiate_stk_push ::
  "Config \<Rightarrow> Gateway \<Rightarrow> Booking \<Rightarrow> Payment \<Rightarrow> Database \<Rightarrow> bool option \<times> Database \<times> net_call list" where
  "initiate_stk_push cfg gw booking payment_record db =
     (case get_mpesa_access_token cfg gw of (access_token, calls) \<Rightarrow>
        if \<not> truthy access_token then (Some False, db, calls)
        else if \<not> (truthy (MPESA_STK_PUSH_URL cfg) \<and> truthy (MPESA_SHORTCODE cfg)
                    \<and> truthy (MPESA_PASSKEY cfg) \<and> truthy (MPESA_CALLBACK_URL_BASE cfg))
        then (Some False, db, calls)
        else if \<not> ascii (the (MPESA_SHORTCODE cfg) @ the (MPESA_PASSKEY cfg))
        then (None, db, calls)
        else
          (case refresh_booking db booking of
             None \<Rightarrow> (None, db, calls)
           | Some booking_row \<Rightarrow>
               (case normalize_phone_number (client_phone_number booking_row) of
                  None \<Rightarrow> (Some False, db, calls)
                | Some client_phone \<Rightarrow>
                    (case refresh_payment db payment_record of
                       None \<Rightarrow> (None, db, calls)
                     | Some payment_row \<Rightarrow>
                         (let safaricom_phone_format = dropWhile (\<lambda>c. c = CHR ''+'') client_phone;
                              payload = \<lparr>BusinessShortCode = the (MPESA_SHORTCODE cfg),
                                         Amount = py_int (amount payment_row),
                                         PartyA = safaricom_phone_format,
                                         PartyB = the (MPESA_SHORTCODE cfg),
                                         PhoneNumber = safaricom_phone_format,
                                         AccountReference = ''BOOK'' @ digits (b_id booking_row)\<rparr>;
                              calls' = calls @ [StkPushRequest payload]
                          in (case stk gw payload of
                                StkFailed \<Rightarrow> (Some False, db, calls')
                              | StkResponse response_data \<Rightarrow>
                                  (case response_data of
                                     JObj kvs \<Rightarrow>
                                       if dict_get kvs ''ResponseCode'' = JStr ''0''
                                       then (case (sql_text (dict_get kvs ''MerchantRequestID''),
                                                   sql_text (dict_get kvs ''CheckoutRequestID'')) of
                                               (Some m, Some c) \<Rightarrow>
                                                 (Some True,
                                                  db\<lparr>payments :=
                                                       save_payment
                                                         (payment_row\<lparr>merchant_request_id := m,
                                                                      checkout_request_id := c,
                                                                      payment_initiation_payload := Some payload\<rparr>)
                                                         (payments db)\<rparr>,
                                                  calls')
                                             | _ \<Rightarrow> (None, db, calls'))
                                       else (Some False,
                                             db\<lparr>payments :=
                                                  save_payment
                                                    (payment_row\<lparr>p_status := assigned (p_status payment_row) P_FAILED,
                                                                 payment_initiation_payload := Some payload,
                                                                 payment_confirmation_payload := Some response_data\<rparr>)
                                                    (payments db)\<rparr>,
                                             calls')
                                   | _ \<Rightarrow> (Some False, db, calls'))))))))"


section \<open>Payment routes (app/routes\_payment.py)\<close>

text \<open>
  Line 41: the estimated price of the booking's service when there is a service and
  the price is neither \<^verbatim>\<open>None\<close> nor zero, else the configured default (100 when none
  is configured). Lines 42 and 43: a value that is not positive becomes 1.
\<close>

definition estimated_or_default :: "Config \<Rightarrow> Booking \<Rightarrow> rat" where
  "estimated_or_default cfg booking =
     (case service booking of
        Some sv \<Rightarrow>
          (case estimated_price sv of
             Some x \<Rightarrow>
               if x \<noteq> 0 then x
               else (case DEFAULT_BOOKING_PRICE cfg of Some d \<Rightarrow> d | None \<Rightarrow> 100)
           | None \<Rightarrow> (case DEFAULT_BOOKING_PRICE cfg of Some d \<Rightarrow> d | None \<Rightarrow> 100))
      | None \<Rightarrow> (case DEFAULT_BOOKING_PRICE cfg of Some d \<Rightarrow> d | None \<Rightarrow> 100))"

definition amount_to_pay :: "Config \<Rightarrow> Booking \<Rightarrow> rat" where
  "amount_to_pay cfg booking =
     (let a = estimated_or_default cfg booking in if a \<le> 0 then 1 else a)"

text \<open>The end of the route: the push, and the message chosen by its result.\<close>

definition push_and_flash ::
  "Config \<Rightarrow> Gateway \<Rightarrow> Booking \<Rightarrow> Payment \<Rightarrow> Database \<Rightarrow> Outcome \<times> Database \<times> net_call list" where
  "push_and_flash cfg gw booking payment_to_process db =
     (case initiate_stk_push cfg gw booking payment_to_process db of
        (None, db', calls) \<Rightarrow> (ServerError, db', calls)
      | (Some stk_initiated, db', calls) \<Rightarrow>
          (if stk_initiated then StkInitiated else InitiationFailed, db', calls))"

text \<open>\<^verbatim>\<open>existing_payment and existing_payment.status == s\<close>, on a loaded object.\<close>

definition has_status :: "Payment option \<Rightarrow> PaymentStatus \<Rightarrow> bool" where
  "has_status existing_payment s =
     (case existing_payment of None \<Rightarrow> False | Some p \<Rightarrow> spelled (p_status p) = s)"

text \<open>
  The row that \<^verbatim>\<open>Payment(booking_id=..., amount=..., currency="KES", status=PENDING)\<close>
  gives once inserted, and the row after the assignments of the retry branch.
\<close>

definition new_payment :: "nat \<Rightarrow> nat \<Rightarrow> rat \<Rightarrow> Payment" where
  "new_payment pid bid amount_to_pay' =
     \<lparr>p_id = pid, booking_id = bid, amount = amount_to_pay', currency = ''KES'',
      mpesa_transaction_id = None, merchant_request_id = None, checkout_request_id = None,
      p_status = ByValue P_PENDING, payment_initiation_payload = None,
      payment_confirmation_payload = None\<rparr>"

definition reset_for_retry :: "Payment \<Rightarrow> Payment" where
  "reset_for_retry payment_to_process =
     payment_to_process\<lparr>p_status := assigned (p_status payment_to_process) P_PENDING,
                         mpesa_transaction_id := None,
                         merchant_request_id := None,
                         checkout_request_id := None,
                         payment_confirmation_payload := None\<rparr>"

text \<open>
  \<^verbatim>\<open>initiate_booking_payment(booking_id)\<close>. The two queries are outside every
  \<^verbatim>\<open>try\<close>. The handler of a failed insert rolls back and formats its log message from
  \<^verbatim>\<open>booking.id\<close>, which fetches the booking's row again.
\<close>

definition initiate_booking_payment ::
  "Config \<Rightarrow> Gateway \<Rightarrow> User option \<Rightarrow> nat \<Rightarrow> Database \<Rightarrow> Outcome \<times> Database \<times> net_call list" where
  "initiate_booking_payment cfg gw current_user booking_id' db =
     (case roles_required [CLIENT] current_user of
        Inl out \<Rightarrow> (out, db, [])
      | Inr u \<Rightarrow>
          (case query_first b_status (\<lambda>b. b_id b = booking_id' \<and> client_id b = u_id u) (bookings db) of
             None \<Rightarrow> (ServerError, db, [])
           | Some None \<Rightarrow> (NotFound, db, [])
           | Some (Some booking) \<Rightarrow>
               if spelled (b_status booking) \<noteq> B_CONFIRMED then (NotConfirmed, db, [])
               else
                 (case query_first p_status (\<lambda>p. booking_id p = b_id booking) (payments db) of
                    None \<Rightarrow> (ServerError, db, [])
                  | Some existing_payment \<Rightarrow>
                      if has_status existing_payment P_SUCCESSFUL then (AlreadyPaid, db, [])
                      else if has_status existing_payment P_PENDING then (AlreadyInFlight, db, [])
                      else
                        (case (if has_status existing_payment P_FAILED then existing_payment else None) of
                           None \<Rightarrow>
                             (let payment_to_process =
                                    new_payment (next_payment_id (payments db)) (b_id booking)
                                      (amount_to_pay cfg booking)
                              in (case add_payment payment_to_process (payments db) of
                                    None \<Rightarrow>
                                      (case refresh_booking db booking of
                                         None \<Rightarrow> (ServerError, db, [])
                                       | Some row \<Rightarrow> (PersistError, db, []))
                                  | Some ps \<Rightarrow>
                                      push_and_flash cfg gw booking payment_to_process
                                        (db\<lparr>payments := ps\<rparr>)))
                         | Some failed \<Rightarrow>
                             (let payment_to_process = reset_for_retry failed
                              in push_and_flash cfg gw booking payment_to_process
                                   (db\<lparr>payments := save_payment payment_to_process (payments db)\<rparr>))))))"

section \<open>Callback processing (mpesa\_service.py) and its endpoint (routes\_payment.py)\<close>

text \<open>
  \<^verbatim>\<open>callback_data.get('Body', {}).get('stkCallback', {})\<close>, followed by the first
  \<^verbatim>\<open>stk_callback.get(...)\<close>: the members of the \<^verbatim>\<open>stkCallback\<close> dictionary, or
  \<open>None\<close> when one of the three values is no dictionary and \<^verbatim>\<open>get\<close> raises.
\<close>

definition stk_callback_of :: "json \<Rightarrow> (string \<times> json) list option" where
  "stk_callback_of callback_data =
     (case py_get callback_data ''Body'' (JObj []) of
        None \<Rightarrow> None
      | Some body \<Rightarrow>
          (case py_get body ''stkCallback'' (JObj []) of
             Some (JObj kvs) \<Rightarrow> Some kvs
           | _ \<Rightarrow> None))"

text \<open>
  \<^verbatim>\<open>result_code = str(stk_callback.get('ResultCode'))\<close> and the test
  \<^verbatim>\<open>result_code == "0"\<close>: \<^verbatim>\<open>str\<close> gives "0" for the integer 0 and for the string
  "0" and for no other value ("None", "True", "False", and texts that start with a
  bracket or a brace for the others).
\<close>

definition result_code_is_0 :: "json \<Rightarrow> bool" where
  "result_code_is_0 v = (v = JNum 0 \<or> v = JStr ''0'')"

text \<open>
  \<^verbatim>\<open>Payment.query.filter_by(checkout_request_id=..., merchant_request_id=...).first()\<close>:
  a comparison with \<^verbatim>\<open>None\<close> is \<^verbatim>\<open>IS NULL\<close>. The outer \<open>None\<close> is an exception: a
  value that cannot be bound, or the LookupError of the status of the row found.
\<close>

definition query_payment :: "Payment list \<Rightarrow> json \<Rightarrow> json \<Rightarrow> Payment option option" where
  "query_payment ps checkout merchant =
     (case (sql_text checkout, sql_text merchant) of
        (Some c, Some m) \<Rightarrow>
          query_first p_status (\<lambda>p. checkout_request_id p = c \<and> merchant_request_id p = m) ps
      | _ \<Rightarrow> None)"

text \<open>
  The values the loop \<^verbatim>\<open>for item in stk_callback.get('CallbackMetadata', {}).get('Item', [])\<close>
  runs over: the elements of a list, the keys of a dictionary, the characters of a
  string; \<open>None\<close> when \<^verbatim>\<open>CallbackMetadata\<close> is no dictionary or \<^verbatim>\<open>Item\<close> cannot be
  iterated.
\<close>

definition callback_items :: "(string \<times> json) list \<Rightarrow> json list option" where
  "callback_items kvs =
     (case py_get (case dict_lookup kvs ''CallbackMetadata'' of Some v \<Rightarrow> v | None \<Rightarrow> JObj [])
             ''Item'' (JArr []) of
        Some (JArr items) \<Rightarrow> Some items
      | Some (JObj ikvs) \<Rightarrow> Some (map (\<lambda>kv. JStr (fst kv)) ikvs)
      | Some (JStr s) \<Rightarrow> Some (map (\<lambda>c. JStr [c]) s)
      | _ \<Rightarrow> None)"

text \<open>
  The body of the loop: every item named \<^verbatim>\<open>MpesaReceiptNumber\<close> assigns its
  \<^verbatim>\<open>Value\<close> to \<^verbatim>\<open>payment.mpesa_transaction_id\<close> (the accumulator); an item that is
  no dictionary raises.
\<close>

fun receipt_loop :: "json list \<Rightarrow> json \<Rightarrow> json option" where
  "receipt_loop [] txn = Some txn"
| "receipt_loop (item # items) txn =
     (case item of
        JObj ikvs \<Rightarrow>
          receipt_loop items
            (if dict_get ikvs ''Name'' = JStr ''MpesaReceiptNumber'' then dict_get ikvs ''Value'' else txn)
      | _ \<Rightarrow> None)"

definition column_value :: "string option \<Rightarrow> json" where
  "column_value v = (case v of None \<Rightarrow> JNull | Some s \<Rightarrow> JStr s)"

text \<open>A user to notify and the message; the sink of the specification.\<close>

type_synonym notification = "nat \<times> string"

text \<open>
  \<^verbatim>\<open>process_mpesa_callback(callback_data)\<close>: the returned boolean, the committed
  database and the notifications sent. Every exception, the LookupError of the query
  included, is caught, rolls the session back and gives \<^verbatim>\<open>False\<close>. Both branches leave
  the notification as a TODO comment, so none is sent.
\<close>

definition process_mpesa_callback :: "Database \<Rightarrow> json \<Rightarrow> bool \<times> Database \<times> notification list" where
  "process_mpesa_callback db callback_data =
     (case stk_callback_of callback_data of
        None \<Rightarrow> (False, db, [])
      | Some stk_callback \<Rightarrow>
          (case query_payment (payments db)
                  (dict_get stk_callback ''CheckoutRequestID'')
                  (dict_get stk_callback ''MerchantRequestID'') of
             None \<Rightarrow> (False, db, [])
           | Some None \<Rightarrow> (False, db, [])
           | Some (Some payment) \<Rightarrow>
               if result_code_is_0 (dict_get stk_callback ''ResultCode'')
               then
                 (case callback_items stk_callback of
                    None \<Rightarrow> (False, db, [])
                  | Some items \<Rightarrow>
                      (case receipt_loop items (column_value (mpesa_transaction_id payment)) of
                         None \<Rightarrow> (False, db, [])
                       | Some txn \<Rightarrow>
                           (case sql_text txn of
                              None \<Rightarrow> (False, db, [])
                            | Some t \<Rightarrow>
                                if t \<noteq> mpesa_transaction_id payment
                                   \<and> receipt_taken (p_id payment) t (payments db)
                                then (False, db, [])
                                else (True,
                                      db\<lparr>payments :=
                                           save_payment
                                             (payment\<lparr>payment_confirmation_payload := Some callback_data,
                                                      p_status := assigned (p_status payment) P_SUCCESSFUL,
                                                      mpesa_transaction_id := t\<rparr>)
                                             (payments db)\<rparr>,
                                      []))))
               else (True,
                     db\<lparr>payments :=
                          save_payment
                            (payment\<lparr>payment_confirmation_payload := Some callback_data,
                                     p_status := assigned (p_status payment) P_FAILED\<rparr>)
                            (payments db)\<rparr>,
                     [])))"

text \<open>
  The endpoint \<^verbatim>\<open>mpesa_callback\<close>. Its second statement logs
  \<^verbatim>\<open>json.dumps(callback_data, indent=2)\<close>, and routes\_payment.py has no
  \<^verbatim>\<open>import json\<close>: \<open>json_bound\<close> says whether the name \<^verbatim>\<open>json\<close> is bound in the
  module when the request arrives. Where it is not (the file as it stands) the
  NameError leaves the view and the framework answers 500.
\<close>

datatype HttpReply = InternalServerError | JsonReply nat int string

definition mpesa_callback :: "bool \<Rightarrow> Database \<Rightarrow> json \<Rightarrow> HttpReply \<times> Database" where
  "mpesa_callback json_bound db callback_data =
     (if \<not> json_bound then (InternalServerError, db)
      else (case process_mpesa_callback db callback_data of
              (success, db', notes) \<Rightarrow>
                if success then (JsonReply 200 0 ''Accepted'', db')
                else (JsonReply 200 1 ''Rejected'', db')))"

section \<open>The system as a state machine\<close>

text \<open>
  A step is one request served to its end: a booking request, which adds a PENDING
  booking under a new primary key (\<^verbatim>\<open>request_booking\<close>); an edit of services, which
  may change the service data joined to the bookings and nothing else
  (\<^verbatim>\<open>edit_service\<close>); a booking action; a payment initiation against any
  configuration and gateway behaviour; or a callback with any payload, delivered to
  the endpoint or handed to the service function. No other route writes a booking or
  a payment. The start is any content of \<^verbatim>\<open>bookings\<close> with distinct primary keys,
  statuses in either spelling, and an empty \<^verbatim>\<open>payments\<close> table.
\<close>

inductive step :: "Database \<Rightarrow> Database \<Rightarrow> bool" where
  booking_request: "b_id new \<notin> set (map b_id (bookings db)) \<Longrightarrow> b_status new = ByValue B_PENDING \<Longrightarrow>
     step db (db\<lparr>bookings := bookings db @ [new]\<rparr>)"
| service_edit: "step db (db\<lparr>bookings := map (\<lambda>b. b\<lparr>service := sv b\<rparr>) (bookings db)\<rparr>)"
| booking_action: "booking_route a current_user bid db = (out, db') \<Longrightarrow> step db db'"
| payment: "initiate_booking_payment cfg gw current_user bid db = (out, db', calls) \<Longrightarrow> step db db'"
| callback: "process_mpesa_callback db callback_data = (ok, db', notes) \<Longrightarrow> step db db'"
| endpoint: "mpesa_callback json_bound db callback_data = (reply, db') \<Longrightarrow> step db db'"

inductive reachable :: "Database \<Rightarrow> bool" where
  start: "distinct (map b_id (bookings db)) \<Longrightarrow> payments db = [] \<Longrightarrow> reachable db"
| step: "reachable db \<Longrightarrow> step db db' \<Longrightarrow> reachable db'"

section \<open>Notions used in the proofs\<close>

text \<open>What an action writes into the booking row.\<close>

fun written :: "BookingAction \<Rightarrow> Booking \<Rightarrow> Booking" where
  "written FreelancerConfirms b =
     b\<lparr>b_status := assigned (b_status b) B_CONFIRMED, freelancer_notes := Some ''Booking confirmed by freelancer.''\<rparr>"
| "written FreelancerRejects b =
     b\<lparr>b_status := assigned (b_status b) B_CANCELLED_FREELANCER,
       freelancer_notes := Some ''Booking rejected by freelancer.''\<rparr>"
| "written ClientCancels b = b\<lparr>b_status := assigned (b_status b) B_CANCELLED_CLIENT\<rparr>"
| "written FreelancerCompletes b = b\<lparr>b_status := assigned (b_status b) B_COMPLETED\<rparr>"

text \<open>
  How the commits of a push change the \<^verbatim>\<open>payments\<close> table: not at all, or by
  rewriting one row in place, under its primary key and its booking reference.
\<close>

inductive row_step :: "Payment list \<Rightarrow> Payment list \<Rightarrow> bool" where
  same: "row_step ps ps"
| row: "r \<in> set ps \<Longrightarrow> p_id p' = p_id r \<Longrightarrow> booking_id p' = booking_id r \<Longrightarrow>
     row_step ps (save_payment p' ps)"

text \<open>
  The payments table of a reachable state: primary keys and booking references are
  distinct, and every row is as the insert of the payment route left it, since no
  later statement gets hold of it: pending by value, without transaction identifier,
  without the gateway's identifiers, with a positive amount.
\<close>

definition as_inserted :: "Payment \<Rightarrow> bool" where
  "as_inserted p \<longleftrightarrow>
     p_status p = ByValue P_PENDING \<and> mpesa_transaction_id p = None
     \<and> merchant_request_id p = None \<and> checkout_request_id p = None \<and> 0 < amount p"

definition table_inv :: "Payment list \<Rightarrow> bool" where
  "table_inv ps \<longleftrightarrow>
     distinct (map p_id ps) \<and> distinct (map booking_id ps) \<and> list_all as_inserted ps"

section \<open>Example data\<close>

text \<open>
  A configured sandbox and a gateway that accepts every push with the identifiers
  \<^verbatim>\<open>M1\<close> and \<^verbatim>\<open>C1\<close>. A client and a freelancer whose rows hold the role by name, as
  rows put into the database by hand do, and the client as the registration form
  stores it. A confirmed booking of a service priced 150, its status held by name.
\<close>

definition example_config :: Config where
  "example_config =
     \<lparr>MPESA_CONSUMER_KEY = Some ''key'', MPESA_CONSUMER_SECRET = Some ''secret'',
      MPESA_AUTH_URL = Some ''https://sandbox/oauth'',
      MPESA_STK_PUSH_URL = Some ''https://sandbox/stkpush'',
      MPESA_SHORTCODE = Some ''174379'', MPESA_PASSKEY = Some ''passkey'',
      MPESA_CALLBACK_URL_BASE = Some ''https://example.org'', DEFAULT_BOOKING_PRICE = None\<rparr>"

definition accepted :: json where
  "accepted = JObj [(''MerchantRequestID'', JStr ''M1''), (''CheckoutRequestID'', JStr ''C1''),
                    (''ResponseCode'', JStr ''0'')]"

definition example_gateway :: Gateway where
  "example_gateway = \<lparr>auth = AuthToken (Some ''token''), stk = (\<lambda>r. StkResponse accepted)\<rparr>"

definition example_client :: User where
  "example_client = \<lparr>u_id = 1, role = ByName CLIENT\<rparr>"

definition registered_client :: User where
  "registered_client = \<lparr>u_id = 1, role = ByValue CLIENT\<rparr>"

definition example_freelancer :: User where
  "example_freelancer = \<lparr>u_id = 2, role = ByName FREELANCER\<rparr>"

definition other_freelancer :: User where
  "other_freelancer = \<lparr>u_id = 3, role = ByName FREELANCER\<rparr>"

definition example_booking :: Booking where
  "example_booking =
     \<lparr>b_id = 7, client_id = 1, freelancer_id = 2, service = Some \<lparr>estimated_price = Some 150\<rparr>,
      client_phone_number = ''0712345678'', b_status = ByName B_CONFIRMED, freelancer_notes = None\<rparr>"

definition example_request :: stk_request where
  "example_request =
     \<lparr>BusinessShortCode = ''174379'', Amount = 150, PartyA = ''254712345678'', PartyB = ''174379'',
      PhoneNumber = ''254712345678'', AccountReference = ''BOOK7''\<rparr>"

text \<open>
  The booking as \<^verbatim>\<open>request_booking\<close> stores it (pending, by value); pending by name;
  confirmed by name and not yet paid for; and the latter after the client has asked to
  pay, with the payment row that the route inserted.
\<close>

definition db_requested :: Database where
  "db_requested = \<lparr>bookings = [example_booking\<lparr>b_status := ByValue B_PENDING\<rparr>], payments = []\<rparr>"

definition db_pending :: Database where
  "db_pending = \<lparr>bookings = [example_booking\<lparr>b_status := ByName B_PENDING\<rparr>], payments = []\<rparr>"

definition db_confirmed :: Database where
  "db_confirmed = \<lparr>bookings = [example_booking], payments = []\<rparr>"

definition db_created :: Database where
  "db_created = \<lparr>bookings = [example_booking], payments = [new_payment 1 7 150]\<rparr>"

text \<open>
  A payment row put into the database by hand, pending by name and with the gateway's
  identifiers, for the statements about rows that can be loaded; a success callback for
  it that carries the receipt number among other metadata items; the database after
  that callback; and the row failed by name.
\<close>

definition example_payment :: Payment where
  "example_payment =
     \<lparr>p_id = 1, booking_id = 7, amount = 150, currency = ''KES'', mpesa_transaction_id = None,
      merchant_request_id = Some ''M1'', checkout_request_id = Some ''C1'',
      p_status = ByName P_PENDING,
      payment_initiation_payload = Some example_request, payment_confirmation_payload = None\<rparr>"

definition db_pushed :: Database where
  "db_pushed = \<lparr>bookings = [example_booking], payments = [example_payment]\<rparr>"

definition receipt_callback :: json where
  "receipt_callback =
     JObj [(''Body'', JObj [(''stkCallback'',
       JObj [(''MerchantRequestID'', JStr ''M1''), (''CheckoutRequestID'', JStr ''C1''),
             (''ResultCode'', JNum 0), (''ResultDesc'', JStr ''The service request is processed successfully.''),
             (''CallbackMetadata'', JObj [(''Item'',
                JArr [JObj [(''Name'', JStr ''Amount''), (''Value'', JNum 150)],
                      JObj [(''Name'', JStr ''MpesaReceiptNumber''), (''Value'', JStr ''QAR7XYZ1'')],
                      JObj [(''Name'', JStr ''PhoneNumber''), (''Value'', JNum 254712345678)]])])])])]"

definition db_paid :: Database where
  "db_paid =
     \<lparr>bookings = [example_booking],
      payments = [example_payment\<lparr>mpesa_transaction_id := Some ''QAR7XYZ1'',
                                 p_status := ByValue P_SUCCESSFUL,
                                 payment_confirmation_payload := Some receipt_callback\<rparr>]\<rparr>"

definition db_failed :: Database where
  "db_failed =
     \<lparr>bookings = [example_booking], payments = [example_payment\<lparr>p_status := ByName P_FAILED\<rparr>]\<rparr>"

definition db_retried :: Database where
  "db_retried =
     \<lparr>bookings = [example_booking],
      payments = [example_payment\<lparr>p_status := ByValue P_PENDING, merchant_request_id := None,
                                 checkout_request_id := None\<rparr>]\<rparr>"

text \<open>The confirmed booking for a service priced -5, and after the client has asked to pay.\<close>

definition db_underpriced :: Database where
  "db_underpriced =
     \<lparr>bookings = [example_booking\<lparr>service := Some \<lparr>estimated_price = Some (- 5)\<rparr>\<rparr>],
      payments = []\<rparr>"

definition db_underpriced_created :: Database where
  "db_underpriced_created =
     \<lparr>bookings = [example_booking\<lparr>service := Some \<lparr>estimated_price = Some (- 5)\<rparr>\<rparr>],
      payments = [new_payment 1 7 1]\<rparr>"

section \<open>The phone normaliser is idempotent\<close>

lemma dropWhile_id_hd: "s \<noteq> [] \<Longrightarrow> \<not> P (hd s) \<Longrightarrow> dropWhile P s = s"
  by (cases s) auto

lemma py_strip_id:
  assumes "s \<noteq> []" and "\<not> py_isspace (hd s)" and "\<not> py_isspace (last s)"
  shows "py_strip s = s"
proof -
  have front: "dropWhile py_isspace s = s"
    using assms(1,2) by (rule dropWhile_id_hd)
  have "rev s \<noteq> []"
    using assms(1) by simp
  moreover have "\<not> py_isspace (hd (rev s))"
    using assms(1,3) by (simp add: hd_rev)
  ultimately have "dropWhile py_isspace (rev s) = rev s"
    by (rule dropWhile_id_hd)
  with front show ?thesis
    by (simp add: py_strip_def)
qed

lemma digit_not_space: "py_isdigit c \<Longrightarrow> \<not> py_isspace c"
  by (auto simp: py_isdigit_def py_isspace_def Let_def)

lemma subscriber_last:
  assumes "subscriber g"
  shows "\<not> py_isspace (last g)"
proof -
  from assms have len: "length g = 9" and ds: "list_all py_isdigit (drop 1 g)"
    by (simp_all add: subscriber_def)
  from len have ne: "drop 1 g \<noteq> []"
    by auto
  then have "last (drop 1 g) \<in> set (drop 1 g)"
    by (rule last_in_set)
  with ds have "py_isdigit (last (drop 1 g))"
    by (simp add: list_all_iff)
  moreover from len have "last (drop 1 g) = last g"
    by simp
  ultimately show ?thesis
    by (simp add: digit_not_space)
qed

lemma match_tail_subscriber: "match_tail r = Some g \<Longrightarrow> subscriber g"
  by (auto simp: match_tail_def split: if_splits)

lemma PHONE_REGEX_match_subscriber: "PHONE_REGEX_match t = Some g \<Longrightarrow> subscriber g"
  by (auto simp: PHONE_REGEX_match_def split: if_splits option.splits
      dest: match_tail_subscriber)

lemma normalize_canonical:
  assumes "subscriber g"
  shows "normalize_phone_number (''+254'' @ g) = Some (''+254'' @ g)"
proof -
  let ?c = "''+254'' @ g"
  from assms have "g \<noteq> []"
    by (auto simp: subscriber_def)
  then have l: "last ?c = last g"
    by simp
  have "\<not> py_isspace (hd ?c)"
    by (simp add: py_isspace_def)
  moreover have "\<not> py_isspace (last ?c)"
    using assms l by (simp add: subscriber_last del: append.simps)
  ultimately have "py_strip ?c = ?c"
    using py_strip_id [of ?c] by simp
  moreover have "match_tail g = Some g"
    using assms by (simp add: match_tail_def)
  ultimately show ?thesis
    by (simp add: normalize_phone_number_def PHONE_REGEX_match_def)
qed

text \<open>
  Claim C10. Whenever \<open>normalize_phone_number s\<close> returns a canonical result \<open>c\<close>
  (and not \<^verbatim>\<open>None\<close>), \<open>c\<close> is \<^verbatim>\<open>+254\<close> followed by a nine-digit subscriber number
  that starts with 7 or 1, and normalising \<open>c\<close> again returns \<open>c\<close> itself.
\<close>

theorem normalize_phone_number_idempotent:
  assumes "normalize_phone_number s = Some c"
  shows "normalize_phone_number c = Some c \<and> (\<exists>g. c = ''+254'' @ g \<and> subscriber g)"
proof -
  from assms obtain g where g: "PHONE_REGEX_match (py_strip s) = Some g" and c: "c = ''+254'' @ g"
    by (auto simp: normalize_phone_number_def split: if_splits option.splits)
  from g have sub: "subscriber g"
    by (rule PHONE_REGEX_match_subscriber)
  then have "normalize_phone_number c = Some c"
    unfolding c by (rule normalize_canonical)
  with sub c show ?thesis
    by blast
qed

theorem normalize_phone_number_idempotent_witness:
  "normalize_phone_number '' 0712345678 '' = Some ''+254712345678''
   \<and> normalize_phone_number ''+254712345678'' = Some ''+254712345678''"
proof -
  have first: "normalize_phone_number '' 0712345678 '' = Some ''+254712345678''"
    by (simp add: normalize_phone_number_def PHONE_REGEX_match_def match_tail_def
        subscriber_def py_strip_def py_isspace_def py_isdigit_def)
  from normalize_phone_number_idempotent [OF first] first show ?thesis
    by simp
qed

section \<open>Queries and rows that cannot be loaded\<close>

lemma find_in_set: "find P xs = Some x \<Longrightarrow> x \<in> set xs \<and> P x"
  by (auto simp: find_Some_iff)

lemma spelled_assigned [simp]: "spelled (assigned s x) = x"
  by (simp add: assigned_def)

lemma query_first_Some:
  "query_first col P rows = Some (Some r) \<longleftrightarrow> find P rows = Some r \<and> loaded (col r) \<noteq> None"
  by (auto simp: query_first_def split: option.splits)

lemma query_first_unloadable:
  assumes "\<forall>r \<in> set rows. loaded (col r) = None"
  shows "query_first col P rows \<noteq> Some (Some x)"
proof
  assume "query_first col P rows = Some (Some x)"
  then have f: "find P rows = Some x" and l: "loaded (col x) \<noteq> None"
    by (simp_all add: query_first_Some)
  from find_in_set [OF f] have "x \<in> set rows" by simp
  with assms l show False by simp
qed

lemma refresh_payment_Some:
  "refresh_payment db p = Some row \<Longrightarrow>
     row \<in> set (payments db) \<and> p_id row = p_id p \<and> loaded (p_status row) \<noteq> None"
  by (auto simp: refresh_payment_def query_first_def split: option.splits dest: find_in_set)

lemma refresh_payment_unloadable:
  assumes "\<forall>r \<in> set (payments db). loaded (p_status r) = None"
  shows "refresh_payment db p = None"
proof (cases "refresh_payment db p")
  case None
  then show ?thesis .
next
  case (Some row)
  from refresh_payment_Some [OF this] assms show ?thesis by auto
qed

lemma callback_unloadable:
  assumes "\<forall>r \<in> set (payments db). loaded (p_status r) = None"
  shows "process_mpesa_callback db cb = (False, db, [])"
proof -
  have "query_payment (payments db) x y \<noteq> Some (Some p)" for x y p
    using query_first_unloadable [OF assms]
    by (auto simp: query_payment_def split: option.splits)
  then show ?thesis
    by (auto simp: process_mpesa_callback_def split: option.splits)
qed

lemma endpoint_unloadable:
  assumes "\<forall>r \<in> set (payments db). loaded (p_status r) = None"
  shows "snd (mpesa_callback jb db cb) = db"
  by (simp add: mpesa_callback_def callback_unloadable [OF assms])

lemma token_calls:
  "get_mpesa_access_token cfg gw = (t, c) \<Longrightarrow> StkPushRequest req \<notin> set c"
  by (auto simp: get_mpesa_access_token_def split: if_splits auth_reply.splits)

lemma initiate_stk_push_unloadable:
  assumes "\<forall>r \<in> set (payments db). loaded (p_status r) = None"
    and "initiate_stk_push cfg gw b p db = (r, db', calls)"
  shows "db' = db \<and> StkPushRequest req \<notin> set calls"
  using assms(2) refresh_payment_unloadable [OF assms(1), of p]
  by (auto simp: initiate_stk_push_def dest: token_calls
      split: prod.splits if_splits option.splits)

lemma push_and_flash_unloadable:
  assumes "\<forall>r \<in> set (payments db). loaded (p_status r) = None"
    and "push_and_flash cfg gw b p db = (out, db', calls)"
  shows "db' = db \<and> StkPushRequest req \<notin> set calls"
proof -
  obtain r d c where r: "initiate_stk_push cfg gw b p db = (r, d, c)"
    by (cases "initiate_stk_push cfg gw b p db") auto
  with assms(2) have "db' = d" and "calls = c"
    by (auto simp: push_and_flash_def split: option.splits)
  with initiate_stk_push_unloadable [OF assms(1) r] show ?thesis by simp
qed

section \<open>What the payment route does to the payments table\<close>

lemma amount_to_pay_pos: "0 < amount_to_pay cfg b"
  by (simp add: amount_to_pay_def Let_def)

lemma new_payment_fields [simp]:
  "p_id (new_payment i b a) = i" "booking_id (new_payment i b a) = b" "amount (new_payment i b a) = a"
  "p_status (new_payment i b a) = ByValue P_PENDING" "mpesa_transaction_id (new_payment i b a) = None"
  "merchant_request_id (new_payment i b a) = None" "checkout_request_id (new_payment i b a) = None"
  by (simp_all add: new_payment_def)

lemma reset_for_retry_fields [simp]:
  "p_id (reset_for_retry p) = p_id p" "booking_id (reset_for_retry p) = booking_id p"
  "amount (reset_for_retry p) = amount p"
  "p_status (reset_for_retry p) = assigned (p_status p) P_PENDING"
  "mpesa_transaction_id (reset_for_retry p) = None"
  "merchant_request_id (reset_for_retry p) = None" "checkout_request_id (reset_for_retry p) = None"
  by (simp_all add: reset_for_retry_def)

lemma initiate_booking_payment_cases:
  assumes "initiate_booking_payment cfg gw cu bid db = (out, db', calls)"
  obtains (quiet) "db' = db" and "calls = []"
  | (create) u booking where "cu = Some u" and "loaded (role u) = Some CLIENT"
      and "find (\<lambda>b. b_id b = bid \<and> client_id b = u_id u) (bookings db) = Some booking"
      and "b_status booking = ByName B_CONFIRMED"
      and "\<not> list_ex (\<lambda>x. booking_id x = b_id booking) (payments db)"
      and "push_and_flash cfg gw booking
             (new_payment (next_payment_id (payments db)) (b_id booking) (amount_to_pay cfg booking))
             (db\<lparr>payments := payments db @
                [new_payment (next_payment_id (payments db)) (b_id booking) (amount_to_pay cfg booking)]\<rparr>)
           = (out, db', calls)"
  | (retry) u booking failed where "cu = Some u" and "loaded (role u) = Some CLIENT"
      and "find (\<lambda>b. b_id b = bid \<and> client_id b = u_id u) (bookings db) = Some booking"
      and "b_status booking = ByName B_CONFIRMED"
      and "find (\<lambda>p. booking_id p = b_id booking) (payments db) = Some failed"
      and "p_status failed = ByName P_FAILED"
      and "push_and_flash cfg gw booking (reset_for_retry failed)
             (db\<lparr>payments := save_payment (reset_for_retry failed) (payments db)\<rparr>)
           = (out, db', calls)"
proof -
  consider (anon) "roles_required [CLIENT] cu = Inl out" and "db' = db" and "calls = []"
    | (user) u where "roles_required [CLIENT] cu = Inr u"
    using assms by (auto simp: initiate_booking_payment_def split: sum.splits)
  then show ?thesis
  proof cases
    case anon
    from anon(2,3) show ?thesis by (rule quiet)
  next
    case (user u)
    then have cu: "cu = Some u" and role: "loaded (role u) = Some CLIENT"
      by (auto simp: roles_required_def split: option.splits if_splits)
    show ?thesis
    proof (cases "query_first b_status (\<lambda>b. b_id b = bid \<and> client_id b = u_id u) (bookings db)")
      case None
      with assms user have "db' = db" and "calls = []"
        by (simp_all add: initiate_booking_payment_def)
      then show ?thesis by (rule quiet)
    next
      case (Some found)
      show ?thesis
      proof (cases found)
        case None
        with Some assms user have "db' = db" and "calls = []"
          by (simp_all add: initiate_booking_payment_def)
        then show ?thesis by (rule quiet)
      next
        case booking: (Some booking)
        with Some have q: "query_first b_status (\<lambda>b. b_id b = bid \<and> client_id b = u_id u) (bookings db)
            = Some (Some booking)"
          by simp
        then have fb: "find (\<lambda>b. b_id b = bid \<and> client_id b = u_id u) (bookings db) = Some booking"
          and lb: "loaded (b_status booking) \<noteq> None"
          by (simp_all add: query_first_Some)
        show ?thesis
        proof (cases "spelled (b_status booking) = B_CONFIRMED")
          case False
          with q assms user have "db' = db" and "calls = []"
            by (simp_all add: initiate_booking_payment_def)
          then show ?thesis by (rule quiet)
        next
          case True
          with lb have st: "b_status booking = ByName B_CONFIRMED"
            by (cases "b_status booking") auto
          show ?thesis
          proof (cases "query_first p_status (\<lambda>p. booking_id p = b_id booking) (payments db)")
            case None
            with q True assms user have "db' = db" and "calls = []"
              by (simp_all add: initiate_booking_payment_def)
            then show ?thesis by (rule quiet)
          next
            case existing: (Some existing_payment)
            let ?rest = "if has_status existing_payment P_SUCCESSFUL then (AlreadyPaid, db, [])
                 else if has_status existing_payment P_PENDING then (AlreadyInFlight, db, [])
                 else (case (if has_status existing_payment P_FAILED then existing_payment else None) of
                         None \<Rightarrow>
                           (case add_payment (new_payment (next_payment_id (payments db)) (b_id booking)
                                    (amount_to_pay cfg booking)) (payments db) of
                              None \<Rightarrow>
                                (case refresh_booking db booking of
                                   None \<Rightarrow> (ServerError, db, [])
                                 | Some row \<Rightarrow> (PersistError, db, []))
                            | Some ps \<Rightarrow>
                                push_and_flash cfg gw booking
                                  (new_payment (next_payment_id (payments db)) (b_id booking)
                                     (amount_to_pay cfg booking))
                                  (db\<lparr>payments := ps\<rparr>))
                       | Some failed \<Rightarrow>
                           push_and_flash cfg gw booking (reset_for_retry failed)
                             (db\<lparr>payments := save_payment (reset_for_retry failed) (payments db)\<rparr>))"
            have "initiate_booking_payment cfg gw cu bid db = ?rest"
              using user q True existing
              by (simp add: initiate_booking_payment_def Let_def split: option.splits)
            with assms have run: "?rest = (out, db', calls)"
              by simp
            show ?thesis
            proof (cases "has_status existing_payment P_SUCCESSFUL \<or> has_status existing_payment P_PENDING")
              case True
              with run have "db' = db" and "calls = []"
                by (auto split: if_splits)
              then show ?thesis by (rule quiet)
            next
              case neither: False
              show ?thesis
              proof (cases "has_status existing_payment P_FAILED")
                case True
                then obtain failed where e: "existing_payment = Some failed"
                  and sp: "spelled (p_status failed) = P_FAILED"
                  by (auto simp: has_status_def split: option.splits)
                from existing e have fp: "find (\<lambda>p. booking_id p = b_id booking) (payments db) = Some failed"
                  and lp: "loaded (p_status failed) \<noteq> None"
                  by (simp_all add: query_first_Some)
                from lp sp have sf: "p_status failed = ByName P_FAILED"
                  by (cases "p_status failed") auto
                from run neither True e
                have "push_and_flash cfg gw booking (reset_for_retry failed)
                       (db\<lparr>payments := save_payment (reset_for_retry failed) (payments db)\<rparr>)
                     = (out, db', calls)"
                  by (simp add: Let_def)
                with cu role fb st fp sf show ?thesis
                  by (rule retry)
              next
                case False
                show ?thesis
                proof (cases "add_payment (new_payment (next_payment_id (payments db)) (b_id booking)
                                 (amount_to_pay cfg booking)) (payments db)")
                  case None
                  with run neither False have "db' = db" and "calls = []"
                    by (auto simp: Let_def split: option.splits)
                  then show ?thesis by (rule quiet)
                next
                  case (Some ps)
                  then have nx: "\<not> list_ex (\<lambda>x. booking_id x = b_id booking) (payments db)"
                    and ps: "ps = payments db @ [new_payment (next_payment_id (payments db)) (b_id booking)
                                 (amount_to_pay cfg booking)]"
                    by (auto simp: add_payment_def split: if_splits)
                  from run neither False Some
                  have "push_and_flash cfg gw booking
                          (new_payment (next_payment_id (payments db)) (b_id booking) (amount_to_pay cfg booking))
                          (db\<lparr>payments := ps\<rparr>) = (out, db', calls)"
                    by (simp add: Let_def)
                  with cu role fb st nx show ?thesis
                    unfolding ps by (rule create)
                qed
              qed
            qed
          qed
        qed
      qed
    qed
  qed
qed

section \<open>Auxiliary facts about lists\<close>

lemma fold_max_ge: "a \<le> fold max xs (a::nat)"
  by (induction xs arbitrary: a) (auto intro: order_trans [OF max.cobounded2])

lemma fold_max_upper: "x \<in> set xs \<Longrightarrow> x \<le> fold max xs (a::nat)"
proof (induction xs arbitrary: a)
  case Nil
  then show ?case by simp
next
  case (Cons y ys)
  show ?case
  proof (cases "x = y")
    case True
    have "max y a \<le> fold max ys (max y a)" by (rule fold_max_ge)
    with True show ?thesis by simp
  next
    case False
    with Cons.prems have "x \<in> set ys" by simp
    then show ?thesis by (simp add: Cons.IH)
  qed
qed

lemma next_payment_id_fresh: "p \<in> set ps \<Longrightarrow> p_id p \<noteq> next_payment_id ps"
proof
  assume mem: "p \<in> set ps" and eq: "p_id p = next_payment_id ps"
  from mem have "p_id p \<in> p_id ` set ps" by (rule imageI)
  then have "p_id p \<in> set (map p_id ps)" by simp
  then have "p_id p \<le> fold max (map p_id ps) 0" by (rule fold_max_upper)
  with eq show False by (simp add: next_payment_id_def)
qed

lemma map_p_id_save [simp]: "map p_id (save_payment p' ps) = map p_id ps"
  by (induction ps) (auto simp: save_payment_def)

lemma map_booking_id_save:
  assumes "distinct (map p_id ps)" and "p \<in> set ps" and "p_id p' = p_id p"
    and "booking_id p' = booking_id p"
  shows "map booking_id (save_payment p' ps) = map booking_id ps"
proof -
  have "\<And>x. x \<in> set ps \<Longrightarrow> p_id x = p_id p' \<Longrightarrow> x = p"
    using assms(1-3) by (auto simp: distinct_map inj_on_def)
  then have "\<And>x. x \<in> set ps \<Longrightarrow> booking_id (if p_id x = p_id p' then p' else x) = booking_id x"
    using assms(4) by auto
  then show ?thesis by (simp add: save_payment_def)
qed

lemma at_most_one:
  "distinct (map f xs) \<Longrightarrow> length (filter (\<lambda>x. f x = b) xs) \<le> 1"
proof (induction xs)
  case Nil
  then show ?case by simp
next
  case (Cons x xs)
  show ?case
  proof (cases "f x = b")
    case True
    have "filter (\<lambda>x. f x = b) xs = []"
    proof (rule ccontr)
      assume "filter (\<lambda>x. f x = b) xs \<noteq> []"
      then obtain y where "y \<in> set xs" and "f y = b"
        by (auto simp: filter_empty_conv)
      then have "b \<in> f ` set xs" by (auto intro: imageI)
      with True Cons.prems show False by simp
    qed
    with True show ?thesis by simp
  next
    case False
    with Cons show ?thesis by simp
  qed
qed

lemma length_filter_conj: "length (filter (\<lambda>x. P x \<and> Q x) xs) \<le> length (filter P xs)"
  by (induction xs) auto

lemma find_b_id: "find (\<lambda>x. b_id x = bid) bs = Some b \<Longrightarrow> b_id b = bid"
  by (auto simp: find_Some_iff)

lemma find_save_booking:
  "find (\<lambda>x. b_id x = i) (save_booking b bs) =
     (case find (\<lambda>x. b_id x = i) bs of
        None \<Rightarrow> None
      | Some x \<Rightarrow> Some (if i = b_id b then b else x))"
  by (induction bs) (auto simp: save_booking_def)

section \<open>Booking routes\<close>

lemmas booking_route_defs =
  confirm_booking_def reject_booking_def cancel_booking_client_def mark_booking_completed_def

lemma booking_route_table:
  "booking_route a cu bid db =
     (case roles_required [required_role a] cu of
        Inl out \<Rightarrow> (out, db)
      | Inr u \<Rightarrow>
          (case query_first b_status (\<lambda>x. b_id x = bid) (bookings db) of
             None \<Rightarrow> (ServerError, db)
           | Some None \<Rightarrow> (NotFound, db)
           | Some (Some b) \<Rightarrow>
               if \<not> owns a u b then (Forbidden, db)
               else if spelled (b_status b) \<notin> set (allowed_from a) then (InvalidTransition, db)
               else (flash_after_commit (db\<lparr>bookings := save_booking (written a b) (bookings db)\<rparr>) b,
                     db\<lparr>bookings := save_booking (written a b) (bookings db)\<rparr>)))"
  by (cases a) (simp_all add: booking_route_defs Let_def split: sum.splits option.splits)

lemma written_fields:
  "b_id (written a b) = b_id b" "b_status (written a b) = assigned (b_status b) (leads_to a)"
  "client_id (written a b) = client_id b" "freelancer_id (written a b) = freelancer_id b"
  by (cases a; simp)+

lemma leads_to_not_allowed: "leads_to a \<notin> set (allowed_from a)"
  by (cases a) simp_all

lemma written_by_value:
  "spelled (b_status b) \<in> set (allowed_from a) \<Longrightarrow> b_status (written a b) = ByValue (leads_to a)"
  using leads_to_not_allowed [of a] by (auto simp: written_fields assigned_def)

lemma flash_after_write:
  assumes "find (\<lambda>x. b_id x = bid) (bookings db) = Some b"
    and "spelled (b_status b) \<in> set (allowed_from a)"
  shows "flash_after_commit (db\<lparr>bookings := save_booking (written a b) (bookings db)\<rparr>) b = ErrorFlashed"
proof -
  from assms(1) have "b_id b = bid" by (rule find_b_id)
  with assms(1) have "find (\<lambda>x. b_id x = b_id b) (save_booking (written a b) (bookings db))
      = Some (written a b)"
    by (simp add: find_save_booking written_fields)
  then show ?thesis
    by (simp add: flash_after_commit_def refresh_booking_def query_first_def
        written_by_value [OF assms(2)])
qed

lemma booking_route_payments:
  assumes "booking_route a cu bid db = (out, db')"
  shows "payments db' = payments db"
  using assms unfolding booking_route_table
  by (auto split: sum.splits option.splits if_splits)

section \<open>The payments table of a reachable state\<close>

lemma table_inv_unloadable: "table_inv ps \<Longrightarrow> \<forall>r \<in> set ps. loaded (p_status r) = None"
  by (auto simp: table_inv_def list_all_iff as_inserted_def)

lemma table_inv_insert:
  assumes "table_inv ps" and "\<not> list_ex (\<lambda>x. booking_id x = b) ps" and "0 < a"
  shows "table_inv (ps @ [new_payment (next_payment_id ps) b a])"
proof -
  from assms(2) have "b \<notin> set (map booking_id ps)"
    by (auto simp: list_ex_iff)
  moreover have "next_payment_id ps \<notin> set (map p_id ps)"
  proof
    assume "next_payment_id ps \<in> set (map p_id ps)"
    then obtain q where "q \<in> set ps" and "p_id q = next_payment_id ps" by auto
    with next_payment_id_fresh [of q ps] show False by simp
  qed
  ultimately show ?thesis
    using assms(1,3) by (simp add: table_inv_def as_inserted_def)
qed

lemma initiate_booking_payment_inv:
  assumes run: "initiate_booking_payment cfg gw cu bid db = (out, db', calls)"
    and inv: "table_inv (payments db)"
  shows "bookings db' = bookings db \<and> table_inv (payments db')
       \<and> StkPushRequest req \<notin> set calls
       \<and> (payments db' = payments db
           \<or> (\<exists>bk \<in> set (bookings db). payments db'
                = payments db @ [new_payment (next_payment_id (payments db)) (b_id bk) (amount_to_pay cfg bk)]))"
  using run
proof (cases rule: initiate_booking_payment_cases)
  case quiet
  with inv show ?thesis by simp
next
  case (create u booking)
  let ?new = "new_payment (next_payment_id (payments db)) (b_id booking) (amount_to_pay cfg booking)"
  let ?db1 = "db\<lparr>payments := payments db @ [?new]\<rparr>"
  have one: "table_inv (payments ?db1)"
    using table_inv_insert [OF inv create(5) amount_to_pay_pos] by simp
  have "db' = ?db1 \<and> StkPushRequest req \<notin> set calls"
    using table_inv_unloadable [OF one] create(6) by (rule push_and_flash_unloadable)
  moreover from find_in_set [OF create(3)] have "booking \<in> set (bookings db)" by simp
  ultimately show ?thesis using one by auto
next
  case (retry u booking failed)
  from find_in_set [OF retry(5)] have "failed \<in> set (payments db)" by simp
  with table_inv_unloadable [OF inv] have "loaded (p_status failed) = None" by simp
  with retry(6) show ?thesis by simp
qed

lemma step_inv:
  assumes "step db db'" and inv: "table_inv (payments db)"
  shows "table_inv (payments db')"
  using assms(1)
proof (cases rule: step.cases)
  case (booking_request new)
  with inv show ?thesis by simp
next
  case (service_edit sv)
  with inv show ?thesis by simp
next
  case (booking_action a cu bid out)
  from booking_route_payments [OF this] inv show ?thesis by simp
next
  case (payment cfg gw cu bid out calls)
  from initiate_booking_payment_inv [OF this inv] show ?thesis by simp
next
  case (callback cb ok ns)
  with callback_unloadable [OF table_inv_unloadable [OF inv], of cb] inv show ?thesis by simp
next
  case (endpoint jb cb reply)
  with endpoint_unloadable [OF table_inv_unloadable [OF inv], of jb cb] inv show ?thesis by simp
qed

lemma reachable_inv: "reachable db \<Longrightarrow> table_inv (payments db)"
proof (induction rule: reachable.induct)
  case (start db)
  then show ?case by (simp add: table_inv_def)
next
  case (step db db')
  then show ?case by (blast intro: step_inv)
qed

section \<open>Evaluating the examples\<close>

lemmas example_defs =
  example_config_def accepted_def example_gateway_def example_client_def registered_client_def
  example_freelancer_def example_booking_def example_request_def example_payment_def
  db_confirmed_def db_requested_def db_pending_def db_created_def db_pushed_def

lemmas phone_defs =
  normalize_phone_number_def PHONE_REGEX_match_def match_tail_def subscriber_def py_strip_def
  py_isspace_def py_isdigit_def

lemmas push_defs =
  initiate_booking_payment_def roles_required_def has_status_def add_payment_def next_payment_id_def
  new_payment_def reset_for_retry_def amount_to_pay_def estimated_or_default_def push_and_flash_def
  initiate_stk_push_def get_mpesa_access_token_def truthy_def ascii_def py_int_def dict_get_def
  dict_lookup_def save_payment_def query_first_def refresh_booking_def refresh_payment_def
  assigned_def digits.simps Let_def

lemmas callback_defs =
  process_mpesa_callback_def stk_callback_of_def py_get_def dict_get_def dict_lookup_def
  query_payment_def query_first_def result_code_is_0_def callback_items_def column_value_def
  receipt_taken_def save_payment_def assigned_def

lemma example_created:
  "initiate_booking_payment example_config example_gateway (Some example_client) 7 db_confirmed
   = (ServerError, db_created, [TokenRequest])"
  by (simp add: example_defs push_defs phone_defs)

lemma example_retried:
  "initiate_booking_payment example_config example_gateway (Some example_client) 7 db_failed
   = (ServerError, db_retried, [TokenRequest])"
  by (simp add: db_failed_def db_retried_def example_defs push_defs phone_defs)

lemma example_receipt: "process_mpesa_callback db_pushed receipt_callback = (True, db_paid, [])"
  by (simp add: example_defs receipt_callback_def db_paid_def callback_defs)

lemma example_underpriced:
  "initiate_booking_payment example_config example_gateway (Some example_client) 7 db_underpriced
   = (ServerError, db_underpriced_created, [TokenRequest])"
  by (simp add: db_underpriced_def db_underpriced_created_def example_defs push_defs phone_defs)

lemma reachable_db_confirmed: "reachable db_confirmed"
  by (rule reachable.start) (simp_all add: example_defs)

lemma reachable_db_created: "reachable db_created"
  by (rule reachable.step [OF reachable_db_confirmed]) (rule step.payment, rule example_created)

section \<open>Guards of the payment initiation\<close>

text \<open>
  Claim C1. The guards of \<open>initiate_booking_payment\<close> act on loaded objects. For a
  client and a booking of theirs whose rows hold the role and the statuses by name, the
  route answers \<open>NotConfirmed\<close> when the booking is not CONFIRMED, and for a CONFIRMED
  booking \<open>AlreadyPaid\<close> when the booking's payment row is SUCCESSFUL and
  \<open>AlreadyInFlight\<close> when it is PENDING. Where the user's role, the booking's status
  or the payment's status is held by value, which is how the application itself stores
  them, the user loader or the query raises LookupError and the route answers 500
  instead. In every one of these cases the database is returned unchanged and no
  network call is made.
\<close>

theorem request_payment_guards_by_spelling:
  "(loaded (role u) = None \<longrightarrow>
      initiate_booking_payment cfg gw (Some u) bid db = (ServerError, db, []))
   \<and> (loaded (role u) = Some CLIENT
        \<and> find (\<lambda>b. b_id b = bid \<and> client_id b = u_id u) (bookings db) = Some b \<longrightarrow>
        (loaded (b_status b) = None \<longrightarrow>
           initiate_booking_payment cfg gw (Some u) bid db = (ServerError, db, []))
      \<and> (loaded (b_status b) \<noteq> None \<and> spelled (b_status b) \<noteq> B_CONFIRMED \<longrightarrow>
           initiate_booking_payment cfg gw (Some u) bid db = (NotConfirmed, db, []))
      \<and> (\<forall>p. b_status b = ByName B_CONFIRMED
              \<and> find (\<lambda>p. booking_id p = b_id b) (payments db) = Some p \<longrightarrow>
             (loaded (p_status p) = None \<longrightarrow>
                initiate_booking_payment cfg gw (Some u) bid db = (ServerError, db, []))
           \<and> (p_status p = ByName P_SUCCESSFUL \<longrightarrow>
                initiate_booking_payment cfg gw (Some u) bid db = (AlreadyPaid, db, []))
           \<and> (p_status p = ByName P_PENDING \<longrightarrow>
                initiate_booking_payment cfg gw (Some u) bid db = (AlreadyInFlight, db, []))))"
proof -
  have user: "initiate_booking_payment cfg gw (Some u) bid db = (ServerError, db, [])"
    if "loaded (role u) = None"
    using that by (simp add: initiate_booking_payment_def roles_required_def)
  have booking: "initiate_booking_payment cfg gw (Some u) bid db = (ServerError, db, [])"
    if "loaded (role u) = Some CLIENT"
      and "find (\<lambda>b. b_id b = bid \<and> client_id b = u_id u) (bookings db) = Some b"
      and "loaded (b_status b) = None"
    using that by (simp add: initiate_booking_payment_def roles_required_def query_first_def)
  have unconfirmed: "initiate_booking_payment cfg gw (Some u) bid db = (NotConfirmed, db, [])"
    if "loaded (role u) = Some CLIENT"
      and "find (\<lambda>b. b_id b = bid \<and> client_id b = u_id u) (bookings db) = Some b"
      and "loaded (b_status b) \<noteq> None" and "spelled (b_status b) \<noteq> B_CONFIRMED"
    using that by (auto simp: initiate_booking_payment_def roles_required_def query_first_def)
  have payment: "(loaded (p_status p) = None \<longrightarrow>
                initiate_booking_payment cfg gw (Some u) bid db = (ServerError, db, []))
           \<and> (p_status p = ByName P_SUCCESSFUL \<longrightarrow>
                initiate_booking_payment cfg gw (Some u) bid db = (AlreadyPaid, db, []))
           \<and> (p_status p = ByName P_PENDING \<longrightarrow>
                initiate_booking_payment cfg gw (Some u) bid db = (AlreadyInFlight, db, []))"
    if "loaded (role u) = Some CLIENT"
      and "find (\<lambda>b. b_id b = bid \<and> client_id b = u_id u) (bookings db) = Some b"
      and "b_status b = ByName B_CONFIRMED"
      and "find (\<lambda>p. booking_id p = b_id b) (payments db) = Some p"
    for p
    using that
    by (auto simp: initiate_booking_payment_def roles_required_def query_first_def has_status_def)
  from user booking unconfirmed payment show ?thesis
    by blast
qed

theorem request_payment_guards_by_spelling_witness:
  "initiate_booking_payment example_config example_gateway (Some registered_client) 7 db_confirmed
     = (ServerError, db_confirmed, [])
   \<and> initiate_booking_payment example_config example_gateway (Some example_client) 7 db_requested
     = (ServerError, db_requested, [])
   \<and> initiate_booking_payment example_config example_gateway (Some example_client) 7 db_created
     = (ServerError, db_created, [])
   \<and> initiate_booking_payment example_config example_gateway (Some example_client) 7 db_paid
     = (ServerError, db_paid, [])
   \<and> initiate_booking_payment example_config example_gateway (Some example_client) 7 db_pending
     = (NotConfirmed, db_pending, [])
   \<and> initiate_booking_payment example_config example_gateway (Some example_client) 7 db_pushed
     = (AlreadyInFlight, db_pushed, [])"
proof -
  have r0: "loaded (role registered_client) = None"
    by (simp add: example_defs)
  have r: "loaded (role example_client) = Some CLIENT"
    by (simp add: example_defs)
  have f1: "find (\<lambda>b. b_id b = 7 \<and> client_id b = u_id example_client) (bookings db_requested)
      = Some (example_booking\<lparr>b_status := ByValue B_PENDING\<rparr>)"
    by (simp add: example_defs)
  have f2: "find (\<lambda>b. b_id b = 7 \<and> client_id b = u_id example_client) (bookings db_created)
      = Some example_booking"
    by (simp add: example_defs)
  have f3: "find (\<lambda>b. b_id b = 7 \<and> client_id b = u_id example_client) (bookings db_paid)
      = Some example_booking"
    by (simp add: example_defs db_paid_def)
  have f4: "find (\<lambda>b. b_id b = 7 \<and> client_id b = u_id example_client) (bookings db_pending)
      = Some (example_booking\<lparr>b_status := ByName B_PENDING\<rparr>)"
    by (simp add: example_defs)
  have f5: "find (\<lambda>b. b_id b = 7 \<and> client_id b = u_id example_client) (bookings db_pushed)
      = Some example_booking"
    by (simp add: example_defs)
  from request_payment_guards_by_spelling
    [of registered_client example_config example_gateway 7 db_confirmed] r0
  have one: "initiate_booking_payment example_config example_gateway (Some registered_client) 7
       db_confirmed = (ServerError, db_confirmed, [])"
    by simp
  from request_payment_guards_by_spelling
    [of example_client example_config example_gateway 7 db_requested
      "example_booking\<lparr>b_status := ByValue B_PENDING\<rparr>"] r f1
  have two: "initiate_booking_payment example_config example_gateway (Some example_client) 7
       db_requested = (ServerError, db_requested, [])"
    by simp
  from request_payment_guards_by_spelling
    [of example_client example_config example_gateway 7 db_created example_booking] r f2
  have three: "initiate_booking_payment example_config example_gateway (Some example_client) 7
       db_created = (ServerError, db_created, [])"
    by (simp add: example_defs)
  from request_payment_guards_by_spelling
    [of example_client example_config example_gateway 7 db_paid example_booking] r f3
  have four: "initiate_booking_payment example_config example_gateway (Some example_client) 7
       db_paid = (ServerError, db_paid, [])"
    by (simp add: example_defs db_paid_def)
  from request_payment_guards_by_spelling
    [of example_client example_config example_gateway 7 db_pending
      "example_booking\<lparr>b_status := ByName B_PENDING\<rparr>"] r f4
  have five: "initiate_booking_payment example_config example_gateway (Some example_client) 7
       db_pending = (NotConfirmed, db_pending, [])"
    by simp
  from request_payment_guards_by_spelling
    [of example_client example_config example_gateway 7 db_pushed example_booking] r f5
  have six: "initiate_booking_payment example_config example_gateway (Some example_client) 7
       db_pushed = (AlreadyInFlight, db_pushed, [])"
    by (simp add: example_defs)
  from one two three four five six show ?thesis
    by (intro conjI)
qed

section \<open>Booking transitions\<close>

text \<open>
  Claim C8. Each of the four booking routes (freelancer confirms, freelancer rejects,
  client cancels, freelancer marks complete) checks the table of section 4.1 on the
  loaded booking. For a user with the route's role whose row holds the role by name
  and a booking whose row holds the status by name, the route answers \<open>Forbidden\<close> to
  a user who does not own the booking and \<open>InvalidTransition\<close> when the status is
  outside the table's allowed-from set, in both cases with the database unchanged;
  from an allowed status it writes the table's target status, by value, and then
  answers with the error message of its \<^verbatim>\<open>except\<close> branch, since its success message
  reads the booking again. For a booking whose status is held by value, which is how
  \<^verbatim>\<open>request_booking\<close> and these routes store it, the route answers 500 to every user
  with the route's role, owner or not, with the database unchanged; and it answers
  500 to every user whose own role is held by value. A user whose role is held by name
  and is not the route's role gets \<open>Forbidden\<close>.
\<close>

theorem booking_routes_by_spelling:
  assumes "find (\<lambda>x. b_id x = bid) (bookings db) = Some b"
  shows "(loaded (role u) = None \<longrightarrow> booking_route a (Some u) bid db = (ServerError, db))
       \<and> (loaded (role u) \<noteq> None \<and> spelled (role u) \<noteq> required_role a \<longrightarrow>
            booking_route a (Some u) bid db = (Forbidden, db))
       \<and> (loaded (role u) = Some (required_role a) \<and> loaded (b_status b) = None \<longrightarrow>
            booking_route a (Some u) bid db = (ServerError, db))
       \<and> (loaded (role u) = Some (required_role a) \<and> loaded (b_status b) \<noteq> None
            \<and> \<not> owns a u b \<longrightarrow>
            booking_route a (Some u) bid db = (Forbidden, db))
       \<and> (loaded (role u) = Some (required_role a) \<and> loaded (b_status b) \<noteq> None
            \<and> owns a u b \<and> spelled (b_status b) \<notin> set (allowed_from a) \<longrightarrow>
            booking_route a (Some u) bid db = (InvalidTransition, db))
       \<and> (loaded (role u) = Some (required_role a) \<and> loaded (b_status b) \<noteq> None
            \<and> owns a u b \<and> spelled (b_status b) \<in> set (allowed_from a) \<longrightarrow>
            booking_route a (Some u) bid db
              = (ErrorFlashed, db\<lparr>bookings := save_booking (written a b) (bookings db)\<rparr>)
            \<and> b_status (written a b) = ByValue (leads_to a))"
proof -
  have one: "booking_route a (Some u) bid db = (ServerError, db)" if "loaded (role u) = None"
    using that by (simp add: booking_route_table roles_required_def)
  have role: "booking_route a (Some u) bid db = (Forbidden, db)"
    if "loaded (role u) \<noteq> None" and "spelled (role u) \<noteq> required_role a"
    using that by (cases "role u") (auto simp: booking_route_table roles_required_def)
  have two: "booking_route a (Some u) bid db = (ServerError, db)"
    if "loaded (role u) = Some (required_role a)" and "loaded (b_status b) = None"
    using assms that by (simp add: booking_route_table roles_required_def query_first_def)
  have three: "booking_route a (Some u) bid db = (Forbidden, db)"
    if "loaded (role u) = Some (required_role a)" and "loaded (b_status b) \<noteq> None"
      and "\<not> owns a u b"
    using assms that by (auto simp: booking_route_table roles_required_def query_first_def)
  have four: "booking_route a (Some u) bid db = (InvalidTransition, db)"
    if "loaded (role u) = Some (required_role a)" and "loaded (b_status b) \<noteq> None"
      and "owns a u b" and "spelled (b_status b) \<notin> set (allowed_from a)"
    using assms that by (auto simp: booking_route_table roles_required_def query_first_def)
  have five: "booking_route a (Some u) bid db
              = (ErrorFlashed, db\<lparr>bookings := save_booking (written a b) (bookings db)\<rparr>)
            \<and> b_status (written a b) = ByValue (leads_to a)"
    if "loaded (role u) = Some (required_role a)" and "loaded (b_status b) \<noteq> None"
      and "owns a u b" and al: "spelled (b_status b) \<in> set (allowed_from a)"
    using assms that flash_after_write [OF assms al] written_by_value [OF al]
    by (auto simp: booking_route_table roles_required_def query_first_def)
  from one role two three four five show ?thesis
    by blast
qed

theorem booking_routes_by_spelling_witness:
  "confirm_booking (Some example_freelancer) 7 db_requested = (ServerError, db_requested)
   \<and> mark_booking_completed (Some example_freelancer) 7 db_requested = (ServerError, db_requested)
   \<and> confirm_booking (Some other_freelancer) 7 db_requested = (ServerError, db_requested)
   \<and> confirm_booking (Some example_freelancer) 7 db_pending
     = (ErrorFlashed,
        db_pending\<lparr>bookings :=
          [example_booking\<lparr>b_status := ByValue B_CONFIRMED,
                           freelancer_notes := Some ''Booking confirmed by freelancer.''\<rparr>]\<rparr>)
   \<and> mark_booking_completed (Some example_freelancer) 7 db_pending = (InvalidTransition, db_pending)
   \<and> confirm_booking (Some other_freelancer) 7 db_pending = (Forbidden, db_pending)"
proof -
  have f1: "find (\<lambda>x. b_id x = 7) (bookings db_requested)
      = Some (example_booking\<lparr>b_status := ByValue B_PENDING\<rparr>)"
    by (simp add: example_defs)
  have f2: "find (\<lambda>x. b_id x = 7) (bookings db_pending)
      = Some (example_booking\<lparr>b_status := ByName B_PENDING\<rparr>)"
    by (simp add: example_defs)
  from booking_routes_by_spelling [OF f1, of example_freelancer FreelancerConfirms]
  have one: "confirm_booking (Some example_freelancer) 7 db_requested = (ServerError, db_requested)"
    by (simp add: example_defs)
  from booking_routes_by_spelling [OF f1, of example_freelancer FreelancerCompletes]
  have two: "mark_booking_completed (Some example_freelancer) 7 db_requested
      = (ServerError, db_requested)"
    by (simp add: example_defs)
  from booking_routes_by_spelling [OF f1, of other_freelancer FreelancerConfirms]
  have three: "confirm_booking (Some other_freelancer) 7 db_requested = (ServerError, db_requested)"
    by (simp add: example_defs other_freelancer_def)
  from booking_routes_by_spelling [OF f2, of example_freelancer FreelancerConfirms]
  have four: "confirm_booking (Some example_freelancer) 7 db_pending
     = (ErrorFlashed,
        db_pending\<lparr>bookings :=
          [example_booking\<lparr>b_status := ByValue B_CONFIRMED,
                           freelancer_notes := Some ''Booking confirmed by freelancer.''\<rparr>]\<rparr>)"
    by (simp add: example_defs save_booking_def assigned_def)
  from booking_routes_by_spelling [OF f2, of example_freelancer FreelancerCompletes]
  have five: "mark_booking_completed (Some example_freelancer) 7 db_pending
      = (InvalidTransition, db_pending)"
    by (simp add: example_defs)
  from booking_routes_by_spelling [OF f2, of other_freelancer FreelancerConfirms]
  have six: "confirm_booking (Some other_freelancer) 7 db_pending = (Forbidden, db_pending)"
    by (simp add: example_defs other_freelancer_def)
  from one two three four five six show ?thesis
    by (intro conjI)
qed

section \<open>One payment row per booking\<close>

lemma initiate_stk_push_rows:
  assumes "initiate_stk_push cfg gw b p db = (r, db', calls)"
  shows "row_step (payments db) (payments db')"
  using assms
  by (auto simp: initiate_stk_push_def Let_def dest!: refresh_payment_Some
      split: prod.splits if_splits option.splits stk_reply.splits json.splits
      intro!: row_step.intros)

lemma push_and_flash_rows:
  assumes "push_and_flash cfg gw b p db = (out, db', calls)"
  shows "row_step (payments db) (payments db')"
proof -
  obtain r d c where r: "initiate_stk_push cfg gw b p db = (r, d, c)"
    by (cases "initiate_stk_push cfg gw b p db") auto
  with assms have "db' = d"
    by (auto simp: push_and_flash_def split: option.splits)
  with initiate_stk_push_rows [OF r] show ?thesis by simp
qed

lemma retry_reuses_row:
  assumes d: "distinct (map p_id (payments db))"
    and bk: "find (\<lambda>x. b_id x = bid \<and> client_id x = u_id u) (bookings db) = Some b"
    and pay: "find (\<lambda>p. booking_id p = b_id b) (payments db) = Some p"
    and run: "initiate_booking_payment cfg gw (Some u) bid db = (out, db', calls)"
  shows "map p_id (payments db') = map p_id (payments db)
       \<and> map booking_id (payments db') = map booking_id (payments db)"
  using run
proof (cases rule: initiate_booking_payment_cases)
  case quiet
  then show ?thesis by simp
next
  case (create u' booking)
  with bk have "booking = b" by simp
  moreover have "p \<in> set (payments db)" and "booking_id p = b_id b"
    using find_in_set [OF pay] by simp_all
  ultimately have "list_ex (\<lambda>x. booking_id x = b_id booking) (payments db)"
    by (auto simp: list_ex_iff)
  with create(5) show ?thesis by simp
next
  case (retry u' booking failed)
  let ?p = "reset_for_retry failed"
  let ?ps1 = "save_payment ?p (payments db)"
  have mem: "failed \<in> set (payments db)"
    using find_in_set [OF retry(5)] by simp
  have b1: "map booking_id ?ps1 = map booking_id (payments db)"
    using d mem by (rule map_booking_id_save) simp_all
  have d1: "distinct (map p_id ?ps1)" using d by simp
  from push_and_flash_rows [OF retry(7)] have "row_step ?ps1 (payments db')"
    by simp
  then show ?thesis
  proof (cases rule: row_step.cases)
    case same
    with b1 show ?thesis by simp
  next
    case (row r p')
    have "map booking_id (save_payment p' ?ps1) = map booking_id ?ps1"
      using d1 row(2-4) by (rule map_booking_id_save)
    with row(1) b1 show ?thesis by simp
  qed
qed

text \<open>
  Claim C2. In every reachable state, for every booking at most one payment row
  refers to it (hence at most one that is PENDING or SUCCESSFUL); every step from a
  reachable state keeps this; and in every database whose payment rows have distinct
  primary keys, a payment initiation that finds the booking's payment FAILED rewrites
  that row: the table has the same rows, with the same primary keys and booking
  references, afterwards.
\<close>

theorem one_payment_per_booking:
  "(reachable db \<longrightarrow>
      (\<forall>b. length (filter (\<lambda>p. booking_id p = b) (payments db)) \<le> 1)
      \<and> (\<forall>b. length (filter (\<lambda>p. booking_id p = b
                  \<and> (spelled (p_status p) = P_PENDING \<or> spelled (p_status p) = P_SUCCESSFUL))
                (payments db)) \<le> 1))
   \<and> (reachable db \<and> step db db' \<longrightarrow>
        (\<forall>b. length (filter (\<lambda>p. booking_id p = b) (payments db')) \<le> 1))
   \<and> ((reachable db \<or> distinct (map p_id (payments db)))
        \<and> find (\<lambda>x. b_id x = bid \<and> client_id x = u_id u) (bookings db) = Some bk
        \<and> find (\<lambda>p. booking_id p = b_id bk) (payments db) = Some failed
        \<and> spelled (p_status failed) = P_FAILED
        \<and> initiate_booking_payment cfg gw (Some u) bid db = (out, db'', calls) \<longrightarrow>
        length (payments db'') = length (payments db)
        \<and> map p_id (payments db'') = map p_id (payments db)
        \<and> map booking_id (payments db'') = map booking_id (payments db))"
proof -
  have one: "\<forall>b. length (filter (\<lambda>p. booking_id p = b) (payments s)) \<le> 1" if "reachable s" for s
  proof -
    from that have "distinct (map booking_id (payments s))"
      using reachable_inv by (auto simp: table_inv_def)
    then show ?thesis
      using at_most_one [of booking_id "payments s"] by blast
  qed
  have two: "\<forall>b. length (filter (\<lambda>p. booking_id p = b
                  \<and> (spelled (p_status p) = P_PENDING \<or> spelled (p_status p) = P_SUCCESSFUL))
                (payments s)) \<le> 1"
    if "reachable s" for s
  proof
    fix b
    have "length (filter (\<lambda>p. booking_id p = b
                  \<and> (spelled (p_status p) = P_PENDING \<or> spelled (p_status p) = P_SUCCESSFUL))
                (payments s))
          \<le> length (filter (\<lambda>p. booking_id p = b) (payments s))"
      by (rule length_filter_conj)
    with one [OF that] show "length (filter (\<lambda>p. booking_id p = b
                  \<and> (spelled (p_status p) = P_PENDING \<or> spelled (p_status p) = P_SUCCESSFUL))
                (payments s)) \<le> 1"
      using order_trans by blast
  qed
  have three: "\<forall>b. length (filter (\<lambda>p. booking_id p = b) (payments db')) \<le> 1"
    if "reachable db" and "step db db'"
  proof -
    from that have "reachable db'" by (rule reachable.step)
    then show ?thesis by (rule one)
  qed
  have four: "length (payments db'') = length (payments db)
        \<and> map p_id (payments db'') = map p_id (payments db)
        \<and> map booking_id (payments db'') = map booking_id (payments db)"
    if "reachable db \<or> distinct (map p_id (payments db))"
      and "find (\<lambda>x. b_id x = bid \<and> client_id x = u_id u) (bookings db) = Some bk"
      and "find (\<lambda>p. booking_id p = b_id bk) (payments db) = Some failed"
      and "initiate_booking_payment cfg gw (Some u) bid db = (out, db'', calls)"
  proof -
    from that(1) have "distinct (map p_id (payments db))"
      using reachable_inv by (auto simp: table_inv_def)
    from retry_reuses_row [OF this that(2,3,4)]
    have m: "map p_id (payments db'') = map p_id (payments db)
       \<and> map booking_id (payments db'') = map booking_id (payments db)" .
    then have "length (payments db'') = length (payments db)"
      by (metis length_map)
    with m show ?thesis by blast
  qed
  from one two three four show ?thesis by blast
qed

theorem one_payment_per_booking_witness:
  "reachable db_created
   \<and> length (filter (\<lambda>p. booking_id p = 7) (payments db_created)) \<le> 1
   \<and> initiate_booking_payment example_config example_gateway (Some example_client) 7 db_failed
     = (ServerError, db_retried, [TokenRequest])
   \<and> length (payments db_retried) = length (payments db_failed)
   \<and> map p_id (payments db_retried) = map p_id (payments db_failed)"
proof -
  have st: "step db_confirmed db_created"
    by (rule step.payment) (rule example_created)
  have d: "distinct (map p_id (payments db_failed))"
    by (simp add: db_failed_def)
  have bk: "find (\<lambda>x. b_id x = 7 \<and> client_id x = u_id example_client) (bookings db_failed)
      = Some example_booking"
    by (simp add: example_defs db_failed_def)
  have pay: "find (\<lambda>p. booking_id p = b_id example_booking) (payments db_failed)
      = Some (example_payment\<lparr>p_status := ByName P_FAILED\<rparr>)"
    by (simp add: example_defs db_failed_def)
  have failed: "spelled (p_status (example_payment\<lparr>p_status := ByName P_FAILED\<rparr>)) = P_FAILED"
    by simp
  from one_payment_per_booking [of db_confirmed db_created] reachable_db_confirmed st
  have one: "length (filter (\<lambda>p. booking_id p = 7) (payments db_created)) \<le> 1"
    by blast
  from one_payment_per_booking [of db_failed db_failed 7 example_client example_booking
      "example_payment\<lparr>p_status := ByName P_FAILED\<rparr>" example_config example_gateway
      ServerError db_retried "[TokenRequest]"] d bk pay failed example_retried
  have "length (payments db_retried) = length (payments db_failed)
        \<and> map p_id (payments db_retried) = map p_id (payments db_failed)"
    by blast
  with one reachable_db_created example_retried show ?thesis
    by blast
qed

section \<open>The transaction identifier\<close>

lemma reachable_rows:
  assumes "reachable db" and "p \<in> set (payments db)"
  shows "as_inserted p"
  using reachable_inv [OF assms(1)] assms(2) by (simp add: table_inv_def list_all_iff)

text \<open>
  Claim C7. In every reachable state, and so after every step from a reachable state
  (payment initiation, retry, callback), a payment row holds a transaction identifier
  if and only if its status is SUCCESSFUL. Both sides are false of every such row: a
  row is inserted PENDING without a transaction identifier, and since its status is
  held by value no later request gets as far as changing it.
\<close>

theorem transaction_id_iff_successful:
  "(reachable db \<and> p \<in> set (payments db) \<longrightarrow>
      (mpesa_transaction_id p \<noteq> None \<longleftrightarrow> spelled (p_status p) = P_SUCCESSFUL))
   \<and> (reachable db \<and> step db db' \<and> p' \<in> set (payments db') \<longrightarrow>
      (mpesa_transaction_id p' \<noteq> None \<longleftrightarrow> spelled (p_status p') = P_SUCCESSFUL))"
proof -
  have "mpesa_transaction_id q \<noteq> None \<longleftrightarrow> spelled (p_status q) = P_SUCCESSFUL"
    if "reachable s" and "q \<in> set (payments s)" for s q
    using reachable_rows [OF that] by (simp add: as_inserted_def)
  then show ?thesis
    using reachable.step by blast
qed

theorem transaction_id_iff_successful_witness:
  "reachable db_created \<and> hd (payments db_created) \<in> set (payments db_created)
   \<and> mpesa_transaction_id (hd (payments db_created)) = None
   \<and> spelled (p_status (hd (payments db_created))) \<noteq> P_SUCCESSFUL"
proof -
  have m: "hd (payments db_created) \<in> set (payments db_created)"
    by (simp add: db_created_def)
  have t: "mpesa_transaction_id (hd (payments db_created)) = None"
    by (simp add: db_created_def)
  from transaction_id_iff_successful [of db_created "hd (payments db_created)"]
    reachable_db_created m t
  show ?thesis by simp
qed

section \<open>The amount sent to the gateway\<close>

lemma initiate_stk_push_amount:
  assumes "initiate_stk_push cfg gw b p db = (r, db', calls)"
    and "StkPushRequest req \<in> set calls"
  shows "\<exists>payment_row. refresh_payment db p = Some payment_row
           \<and> Amount req = py_int (amount payment_row)"
  using assms
  by (auto simp: initiate_stk_push_def Let_def dest: token_calls
      split: prod.splits if_splits option.splits stk_reply.splits json.splits)

text \<open>
  Claim C9, as amended. Neither \<open>initiate_stk_push\<close> nor the route that calls it
  rejects an amount. A price that is not positive is replaced by 1 when
  \<open>initiate_booking_payment\<close> creates the payment, and a positive price is taken as it
  is; so the payment row that the route inserts, and the amount of every payment row
  of a reachable state, is positive. Every push request that \<open>initiate_stk_push\<close>
  issues carries \<^verbatim>\<open>int(amount)\<close> of the payment's row, the amount truncated towards
  zero, which is its floor when the amount is positive.
\<close>

theorem push_amount_is_truncated:
  "(initiate_stk_push cfg gw b p db = (r, db', calls) \<and> StkPushRequest req \<in> set calls \<longrightarrow>
      (\<exists>payment_row. refresh_payment db p = Some payment_row
          \<and> Amount req = py_int (amount payment_row)
          \<and> (0 < amount payment_row \<longrightarrow> Amount req = \<lfloor>amount payment_row\<rfloor>)))
   \<and> (estimated_or_default cfg booking \<le> 0 \<longrightarrow> amount_to_pay cfg booking = 1)
   \<and> (0 < estimated_or_default cfg booking \<longrightarrow>
        amount_to_pay cfg booking = estimated_or_default cfg booking)
   \<and> (reachable db \<and> initiate_booking_payment cfg gw cu bid db = (out, db'', calls') \<longrightarrow>
        payments db'' = payments db
        \<or> (\<exists>bk \<in> set (bookings db). payments db''
              = payments db @ [new_payment (next_payment_id (payments db)) (b_id bk) (amount_to_pay cfg bk)]))
   \<and> (reachable db \<longrightarrow> (\<forall>q \<in> set (payments db). 0 < amount q))"
proof -
  have one: "\<exists>payment_row. refresh_payment db p = Some payment_row
          \<and> Amount req = py_int (amount payment_row)
          \<and> (0 < amount payment_row \<longrightarrow> Amount req = \<lfloor>amount payment_row\<rfloor>)"
    if "initiate_stk_push cfg gw b p db = (r, db', calls)" and "StkPushRequest req \<in> set calls"
  proof -
    from that obtain payment_row where "refresh_payment db p = Some payment_row"
      and "Amount req = py_int (amount payment_row)"
      using initiate_stk_push_amount by blast
    then show ?thesis by (simp add: py_int_def)
  qed
  have two: "estimated_or_default cfg booking \<le> 0 \<longrightarrow> amount_to_pay cfg booking = 1"
    by (simp add: amount_to_pay_def Let_def)
  have three: "0 < estimated_or_default cfg booking \<longrightarrow>
      amount_to_pay cfg booking = estimated_or_default cfg booking"
    by (simp add: amount_to_pay_def Let_def)
  have four: "payments db'' = payments db
        \<or> (\<exists>bk \<in> set (bookings db). payments db''
              = payments db @ [new_payment (next_payment_id (payments db)) (b_id bk) (amount_to_pay cfg bk)])"
    if "reachable db" and "initiate_booking_payment cfg gw cu bid db = (out, db'', calls')"
    using initiate_booking_payment_inv [OF that(2) reachable_inv [OF that(1)]] by blast
  have five: "\<forall>q \<in> set (payments db). 0 < amount q" if "reachable db"
    using reachable_rows [OF that] by (simp add: as_inserted_def)
  from one two three four five show ?thesis
    by blast
qed

theorem push_amount_is_truncated_witness:
  "initiate_stk_push example_config example_gateway example_booking example_payment db_pushed
   = (Some True, db_pushed, [TokenRequest, StkPushRequest example_request])
   \<and> refresh_payment db_pushed example_payment = Some example_payment
   \<and> Amount example_request = \<lfloor>amount example_payment\<rfloor>
   \<and> amount_to_pay example_config (example_booking\<lparr>service := Some \<lparr>estimated_price = Some (- 5)\<rparr>\<rparr>) = 1"
proof -
  have run: "initiate_stk_push example_config example_gateway example_booking example_payment db_pushed
   = (Some True, db_pushed, [TokenRequest, StkPushRequest example_request])"
    by (simp add: example_defs push_defs phone_defs)
  have row: "refresh_payment db_pushed example_payment = Some example_payment"
    by (simp add: example_defs refresh_payment_def query_first_def)
  have price: "estimated_or_default example_config
      (example_booking\<lparr>service := Some \<lparr>estimated_price = Some (- 5)\<rparr>\<rparr>) \<le> 0"
    by (simp add: estimated_or_default_def)
  have "StkPushRequest example_request \<in> set [TokenRequest, StkPushRequest example_request]"
    by simp
  with run row price push_amount_is_truncated [of example_config example_gateway example_booking
      example_payment db_pushed "Some True" db_pushed
      "[TokenRequest, StkPushRequest example_request]" example_request
      "example_booking\<lparr>service := Some \<lparr>estimated_price = Some (- 5)\<rparr>\<rparr>"]
  show ?thesis by (simp add: example_payment_def py_int_def)
qed

text \<open>
  Claim C9 as stated fails: asked to pay for a service priced -5, the route does not
  reject the request before any network call. It inserts a payment row of amount 1 and
  fetches a token.
\<close>

theorem invalid_amount_rejected_counterexample:
  "estimated_or_default example_config (hd (bookings db_underpriced)) = - 5
   \<and> initiate_booking_payment example_config example_gateway (Some example_client) 7 db_underpriced
     = (ServerError, db_underpriced_created, [TokenRequest])
   \<and> payments db_underpriced = []
   \<and> map amount (payments db_underpriced_created) = [1]"
  using example_underpriced
  by (simp add: db_underpriced_def db_underpriced_created_def estimated_or_default_def)

section \<open>Callbacks that match no payment, and callbacks with absent fields\<close>

lemma callback_no_match:
  assumes "stk_callback_of cb = Some kvs"
    and "sql_text (dict_get kvs ''CheckoutRequestID'') = Some c"
    and "sql_text (dict_get kvs ''MerchantRequestID'') = Some m"
    and "\<forall>p \<in> set (payments db). \<not> (checkout_request_id p = c \<and> merchant_request_id p = m)"
  shows "process_mpesa_callback db cb = (False, db, [])"
proof -
  from assms(4) have "find (\<lambda>p. checkout_request_id p = c \<and> merchant_request_id p = m) (payments db) = None"
    by (simp add: find_None_iff)
  with assms(1-3) show ?thesis
    by (simp add: process_mpesa_callback_def query_payment_def query_first_def)
qed

text \<open>
  Claim C5. For a callback whose \<^verbatim>\<open>stkCallback\<close> carries both identifiers, as strings,
  and a result code, and whose pair of identifiers is that of no payment row,
  \<open>process_mpesa_callback\<close> returns \<^verbatim>\<open>False\<close> and leaves the database as it was, and
  the endpoint leaves the database as it was and does not answer with the success
  acknowledgment: it answers "Rejected" with result code 1, or 500 where the name
  \<^verbatim>\<open>json\<close> is unbound.
\<close>

theorem unknown_correlation_rejected:
  assumes "stk_callback_of cb = Some kvs"
    and "dict_lookup kvs ''MerchantRequestID'' = Some (JStr m)"
    and "dict_lookup kvs ''CheckoutRequestID'' = Some (JStr c)"
    and "dict_lookup kvs ''ResultCode'' = Some rc"
    and "\<forall>p \<in> set (payments db). \<not> (merchant_request_id p = Some m \<and> checkout_request_id p = Some c)"
  shows "process_mpesa_callback db cb = (False, db, [])
       \<and> (\<forall>json_bound. snd (mpesa_callback json_bound db cb) = db
              \<and> fst (mpesa_callback json_bound db cb) \<noteq> JsonReply 200 0 ''Accepted''
              \<and> (json_bound \<longrightarrow> fst (mpesa_callback json_bound db cb) = JsonReply 200 1 ''Rejected'')
              \<and> (\<not> json_bound \<longrightarrow> fst (mpesa_callback json_bound db cb) = InternalServerError))"
proof -
  have "process_mpesa_callback db cb = (False, db, [])"
    using assms(1)
  proof (rule callback_no_match)
    show "sql_text (dict_get kvs ''CheckoutRequestID'') = Some (Some c)"
      using assms(3) by (simp add: dict_get_def)
    show "sql_text (dict_get kvs ''MerchantRequestID'') = Some (Some m)"
      using assms(2) by (simp add: dict_get_def)
    show "\<forall>p \<in> set (payments db). \<not> (checkout_request_id p = Some c \<and> merchant_request_id p = Some m)"
      using assms(5) by blast
  qed
  then show ?thesis
    by (simp add: mpesa_callback_def)
qed

theorem unknown_correlation_rejected_witness:
  "process_mpesa_callback db_created receipt_callback = (False, db_created, [])
   \<and> mpesa_callback True db_created receipt_callback = (JsonReply 200 1 ''Rejected'', db_created)
   \<and> mpesa_callback False db_created receipt_callback = (InternalServerError, db_created)"
proof -
  have a: "stk_callback_of receipt_callback =
      Some [(''MerchantRequestID'', JStr ''M1''), (''CheckoutRequestID'', JStr ''C1''),
             (''ResultCode'', JNum 0), (''ResultDesc'', JStr ''The service request is processed successfully.''),
             (''CallbackMetadata'', JObj [(''Item'',
                JArr [JObj [(''Name'', JStr ''Amount''), (''Value'', JNum 150)],
                      JObj [(''Name'', JStr ''MpesaReceiptNumber''), (''Value'', JStr ''QAR7XYZ1'')],
                      JObj [(''Name'', JStr ''PhoneNumber''), (''Value'', JNum 254712345678)]])])]"
    by (simp add: receipt_callback_def stk_callback_of_def py_get_def dict_lookup_def)
  have b: "dict_lookup (the (stk_callback_of receipt_callback)) ''MerchantRequestID'' = Some (JStr ''M1'')"
    by (simp add: a dict_lookup_def)
  have c: "dict_lookup (the (stk_callback_of receipt_callback)) ''CheckoutRequestID'' = Some (JStr ''C1'')"
    by (simp add: a dict_lookup_def)
  have d: "dict_lookup (the (stk_callback_of receipt_callback)) ''ResultCode'' = Some (JNum 0)"
    by (simp add: a dict_lookup_def)
  have e: "\<forall>p \<in> set (payments db_created).
      \<not> (merchant_request_id p = Some ''M1'' \<and> checkout_request_id p = Some ''C1'')"
    by (simp add: db_created_def)
  have a': "stk_callback_of receipt_callback = Some (the (stk_callback_of receipt_callback))"
    by (simp add: a)
  note t = unknown_correlation_rejected [OF a' b c d e]
  from t have service: "process_mpesa_callback db_created receipt_callback = (False, db_created, [])"
    by (rule conjunct1)
  note bound = t [THEN conjunct2, THEN spec, of True]
  note unbound = t [THEN conjunct2, THEN spec, of False]
  from bound have "snd (mpesa_callback True db_created receipt_callback) = db_created"
    and "fst (mpesa_callback True db_created receipt_callback) = JsonReply 200 1 ''Rejected''"
    by simp_all
  then have one: "mpesa_callback True db_created receipt_callback = (JsonReply 200 1 ''Rejected'', db_created)"
    by (intro prod_eqI) simp_all
  from unbound have "snd (mpesa_callback False db_created receipt_callback) = db_created"
    and "fst (mpesa_callback False db_created receipt_callback) = InternalServerError"
    by simp_all
  then have "mpesa_callback False db_created receipt_callback = (InternalServerError, db_created)"
    by (intro prod_eqI) simp_all
  with one have "mpesa_callback True db_created receipt_callback = (JsonReply 200 1 ''Rejected'', db_created)
    \<and> mpesa_callback False db_created receipt_callback = (InternalServerError, db_created)"
    by (rule conjI)
  with service show ?thesis
    by (rule conjI)
qed

text \<open>
  Claim C4. In every reachable state, for a callback payload whose \<^verbatim>\<open>stkCallback\<close>
  object cannot be read or lacks \<^verbatim>\<open>MerchantRequestID\<close>, \<^verbatim>\<open>CheckoutRequestID\<close> or
  \<^verbatim>\<open>ResultCode\<close>, \<open>process_mpesa_callback\<close> fails, returning \<^verbatim>\<open>False\<close>, sends no
  notification and leaves the database as it was, and the endpoint leaves the database
  as it was and does not answer with the success acknowledgment. The function has no
  check of its own for these fields: an absent identifier is looked up as NULL, and
  the row that such a lookup finds in a reachable state cannot be loaded.
\<close>

theorem absent_field_callback_fails:
  assumes "reachable db"
    and "stk_callback_of cb = None
         \<or> (\<exists>kvs. stk_callback_of cb = Some kvs
               \<and> (dict_lookup kvs ''MerchantRequestID'' = None
                   \<or> dict_lookup kvs ''CheckoutRequestID'' = None
                   \<or> dict_lookup kvs ''ResultCode'' = None))"
  shows "process_mpesa_callback db cb = (False, db, [])
       \<and> snd (mpesa_callback json_bound db cb) = db
       \<and> fst (mpesa_callback json_bound db cb) \<noteq> JsonReply 200 0 ''Accepted''"
proof -
  from assms(1) have "\<forall>r \<in> set (payments db). loaded (p_status r) = None"
    using reachable_inv table_inv_unloadable by blast
  then have "process_mpesa_callback db cb = (False, db, [])"
    by (rule callback_unloadable)
  then show ?thesis
    by (simp add: mpesa_callback_def)
qed

theorem absent_field_callback_fails_witness:
  "reachable db_created
   \<and> process_mpesa_callback db_created (JObj []) = (False, db_created, [])
   \<and> mpesa_callback True db_created (JObj []) = (JsonReply 200 1 ''Rejected'', db_created)"
proof -
  have "stk_callback_of (JObj []) = Some []"
    by (simp add: stk_callback_of_def py_get_def dict_lookup_def)
  then have ab: "stk_callback_of (JObj []) = None
         \<or> (\<exists>kvs. stk_callback_of (JObj []) = Some kvs
               \<and> (dict_lookup kvs ''MerchantRequestID'' = None
                   \<or> dict_lookup kvs ''CheckoutRequestID'' = None
                   \<or> dict_lookup kvs ''ResultCode'' = None))"
    by (simp add: dict_lookup_def)
  note t = absent_field_callback_fails [OF reachable_db_created ab, of True]
  from t have one: "process_mpesa_callback db_created (JObj []) = (False, db_created, [])"
    by (rule conjunct1)
  then have "mpesa_callback True db_created (JObj []) = (JsonReply 200 1 ''Rejected'', db_created)"
    by (simp add: mpesa_callback_def)
  with one reachable_db_created show ?thesis
    by (intro conjI)
qed

section \<open>The round trip of a payment\<close>

text \<open>
  Claim C6. The round trip stops before the push. For the confirmed booking of a
  service priced 150, asked by its client against a gateway that would accept the
  push, \<open>initiate_booking_payment\<close> inserts the payment row of amount 150, fetches a
  token and then answers 500 without a push request, since \<^verbatim>\<open>int(payment_record.amount)\<close>
  reads again the row whose status the insert has stored by value. The row is left
  PENDING without the gateway's identifiers, and the success callback that carries
  \<^verbatim>\<open>MpesaReceiptNumber\<close> \<^verbatim>\<open>QAR7XYZ1\<close> finds no row and returns \<^verbatim>\<open>False\<close>. Only for a
  row that holds the identifiers and a status by name does the callback do what the
  claim says: the row becomes SUCCESSFUL with the transaction identifier \<^verbatim>\<open>QAR7XYZ1\<close>, taken
  from the item of that name, the second of three.
\<close>

theorem round_trip_stops_before_push:
  "initiate_booking_payment example_config example_gateway (Some example_client) 7 db_confirmed
     = (ServerError, db_created, [TokenRequest])
   \<and> map amount (payments db_created) = [150]
   \<and> map p_status (payments db_created) = [ByValue P_PENDING]
   \<and> map merchant_request_id (payments db_created) = [None]
   \<and> map checkout_request_id (payments db_created) = [None]
   \<and> process_mpesa_callback db_created receipt_callback = (False, db_created, [])
   \<and> map mpesa_transaction_id (payments db_created) = [None]
   \<and> process_mpesa_callback db_pushed receipt_callback = (True, db_paid, [])
   \<and> map mpesa_transaction_id (payments db_paid) = [Some ''QAR7XYZ1'']
   \<and> map (\<lambda>p. spelled (p_status p)) (payments db_paid) = [P_SUCCESSFUL]"
proof -
  have "process_mpesa_callback db_created receipt_callback = (False, db_created, [])"
    by (simp add: example_defs receipt_callback_def callback_defs)
  with example_created example_receipt show ?thesis
    by (simp add: db_created_def db_paid_def)
qed

section \<open>Callbacks delivered twice\<close>

lemma find_save_first:
  assumes "find P ps = Some p" and "P p'" and "p_id p' = p_id p"
  shows "find P (save_payment p' ps) = Some p'"
  using assms by (induction ps) (auto simp: save_payment_def split: if_splits)

lemma callback_success_form:
  assumes "process_mpesa_callback db cb = (True, db1, ns)" and "stk_callback_of cb = Some k"
    and "sql_text (dict_get k ''CheckoutRequestID'') = Some c"
    and "sql_text (dict_get k ''MerchantRequestID'') = Some m"
    and "find (\<lambda>p. checkout_request_id p = c \<and> merchant_request_id p = m) (payments db) = Some p"
  obtains p' where "db1 = db\<lparr>payments := save_payment p' (payments db)\<rparr>"
    and "p_id p' = p_id p" and "checkout_request_id p' = c" and "merchant_request_id p' = m"
    and "p_status p' = assigned (p_status p) P_SUCCESSFUL \<or> p_status p' = assigned (p_status p) P_FAILED"
    and "ns = []"
proof -
  from find_in_set [OF assms(5)] have ids: "checkout_request_id p = c" "merchant_request_id p = m"
    by simp_all
  show ?thesis
  proof (cases "result_code_is_0 (dict_get k ''ResultCode'')")
    case True
    with assms obtain t where "db1 = db\<lparr>payments := save_payment
           (p\<lparr>payment_confirmation_payload := Some cb,
              p_status := assigned (p_status p) P_SUCCESSFUL,
              mpesa_transaction_id := t\<rparr>) (payments db)\<rparr>" and "ns = []"
      by (auto simp: process_mpesa_callback_def query_payment_def query_first_def
          split: option.splits if_splits)
    with ids show ?thesis
      by (intro that [of "p\<lparr>payment_confirmation_payload := Some cb,
              p_status := assigned (p_status p) P_SUCCESSFUL,
              mpesa_transaction_id := t\<rparr>"]) simp_all
  next
    case False
    with assms have "db1 = db\<lparr>payments := save_payment
           (p\<lparr>payment_confirmation_payload := Some cb,
              p_status := assigned (p_status p) P_FAILED\<rparr>) (payments db)\<rparr>" and "ns = []"
      by (auto simp: process_mpesa_callback_def query_payment_def query_first_def
          split: option.splits if_splits)
    with ids show ?thesis
      by (intro that [of "p\<lparr>payment_confirmation_payload := Some cb,
              p_status := assigned (p_status p) P_FAILED\<rparr>"]) simp_all
  qed
qed

text \<open>
  Claim C3. The redelivered callback is not acknowledged. When a callback has been
  applied to a pending payment (\<open>process_mpesa_callback\<close> returned \<^verbatim>\<open>True\<close>), a second
  callback with the same pair of identifiers, whatever its result code and metadata,
  leaves the database as it is, so the payment's status is unchanged, and sends no
  notification, but it returns \<^verbatim>\<open>False\<close>: the first callback has stored the new status
  by value, and the query of the second one raises LookupError on that row.
\<close>

theorem duplicate_callback_not_acknowledged:
  assumes "stk_callback_of cb1 = Some k1" and "stk_callback_of cb2 = Some k2"
    and "dict_get k2 ''MerchantRequestID'' = dict_get k1 ''MerchantRequestID''"
    and "dict_get k2 ''CheckoutRequestID'' = dict_get k1 ''CheckoutRequestID''"
    and "query_payment (payments db) (dict_get k1 ''CheckoutRequestID'')
           (dict_get k1 ''MerchantRequestID'') = Some (Some p)"
    and "spelled (p_status p) = P_PENDING"
    and "process_mpesa_callback db cb1 = (True, db1, ns1)"
  shows "process_mpesa_callback db1 cb2 = (False, db1, []) \<and> ns1 = []
       \<and> (\<forall>json_bound. snd (mpesa_callback json_bound db1 cb2) = db1
            \<and> fst (mpesa_callback json_bound db1 cb2) \<noteq> JsonReply 200 0 ''Accepted'')"
proof -
  from assms(5) obtain c m where c: "sql_text (dict_get k1 ''CheckoutRequestID'') = Some c"
    and m: "sql_text (dict_get k1 ''MerchantRequestID'') = Some m"
    and f: "find (\<lambda>p. checkout_request_id p = c \<and> merchant_request_id p = m) (payments db) = Some p"
    by (auto simp: query_payment_def query_first_Some split: option.splits)
  from assms(7,1) c m f obtain p' where d: "db1 = db\<lparr>payments := save_payment p' (payments db)\<rparr>"
    and i: "p_id p' = p_id p" and pc: "checkout_request_id p' = c" and pm: "merchant_request_id p' = m"
    and s: "p_status p' = assigned (p_status p) P_SUCCESSFUL \<or> p_status p' = assigned (p_status p) P_FAILED"
    and n: "ns1 = []"
    by (rule callback_success_form)
  from s assms(6) have l: "loaded (p_status p') = None"
    by (auto simp: assigned_def)
  have "find (\<lambda>p. checkout_request_id p = c \<and> merchant_request_id p = m) (payments db1) = Some p'"
    unfolding d using f pc pm i by (simp add: find_save_first)
  with l have "query_first p_status (\<lambda>p. checkout_request_id p = c \<and> merchant_request_id p = m)
      (payments db1) = None"
    by (simp add: query_first_def)
  with c m assms(3,4) have "query_payment (payments db1) (dict_get k2 ''CheckoutRequestID'')
           (dict_get k2 ''MerchantRequestID'') = None"
    by (simp add: query_payment_def)
  with assms(2) have "process_mpesa_callback db1 cb2 = (False, db1, [])"
    by (simp add: process_mpesa_callback_def)
  with n show ?thesis
    by (simp add: mpesa_callback_def)
qed

theorem duplicate_callback_not_acknowledged_witness:
  "process_mpesa_callback db_pushed receipt_callback = (True, db_paid, [])
   \<and> process_mpesa_callback db_paid receipt_callback = (False, db_paid, [])"
proof -
  have a: "stk_callback_of receipt_callback = Some (the (stk_callback_of receipt_callback))"
    by (simp add: receipt_callback_def stk_callback_of_def py_get_def dict_lookup_def)
  have q: "query_payment (payments db_pushed)
      (dict_get (the (stk_callback_of receipt_callback)) ''CheckoutRequestID'')
      (dict_get (the (stk_callback_of receipt_callback)) ''MerchantRequestID'') = Some (Some example_payment)"
    by (simp add: receipt_callback_def example_defs callback_defs)
  have s: "spelled (p_status example_payment) = P_PENDING"
    by (simp add: example_payment_def)
  from duplicate_callback_not_acknowledged [OF a a refl refl q s example_receipt]
  have "process_mpesa_callback db_paid receipt_callback = (False, db_paid, [])"
    by (rule conjunct1)
  with example_receipt show ?thesis
    by (rule conjI)
qed

end
